theory Spec2Isabelle
  imports Complex_Main "HOL-Library.Word"
begin

unbundle bit_operations_syntax

section \<open>Mode S frames and the parity engine\<close>

text \<open>
  The decoder of \<^verbatim>\<open>dump1090.c\<close> works on a buffer of
  \<^verbatim>\<open>MODES_LONG_MSG_BYTES\<close> = 14 unsigned bytes; a short frame lives in the
  first seven.  A buffer is a list of bytes, C's \<^verbatim>\<open>uint32_t\<close> is a 32-bit word, and C's
  \<^verbatim>\<open>int\<close> fields are HOL integers (every value stored in them below is far from
  the 32-bit range, so no wrap-around is lost).
\<close>

type_synonym byte = "8 word"
type_synonym u32 = "32 word"

definition MODES_LONG_MSG_BITS :: nat where "MODES_LONG_MSG_BITS = 112"
definition MODES_SHORT_MSG_BITS :: nat where "MODES_SHORT_MSG_BITS = 56"
definition MODES_LONG_MSG_BYTES :: nat where "MODES_LONG_MSG_BYTES = 14"
definition MODES_ICAO_CACHE_LEN :: nat where "MODES_ICAO_CACHE_LEN = 1024"
definition MODES_ICAO_CACHE_TTL :: int where "MODES_ICAO_CACHE_TTL = 60"

definition modes_checksum_table :: "u32 list" where
  "modes_checksum_table = [
    0x3935ea, 0x1c9af5, 0xf1b77e, 0x78dbbf, 0xc397db, 0x9e31e9, 0xb0e2f0, 0x587178,
    0x2c38bc, 0x161c5e, 0x0b0e2f, 0xfa7d13, 0x82c48d, 0xbe9842, 0x5f4c21, 0xd05c14,
    0x682e0a, 0x341705, 0xe5f186, 0x72f8c3, 0xc68665, 0x9cb936, 0x4e5c9b, 0xd8d449,
    0x939020, 0x49c810, 0x24e408, 0x127204, 0x093902, 0x049c81, 0xfdb444, 0x7eda22,
    0x3f6d11, 0xe04c8c, 0x702646, 0x381323, 0xe3f395, 0x8e03ce, 0x4701e7, 0xdc7af7,
    0x91c77f, 0xb719bb, 0xa476d9, 0xadc168, 0x56e0b4, 0x2b705a, 0x15b82d, 0xf52612,
    0x7a9309, 0xc2b380, 0x6159c0, 0x30ace0, 0x185670, 0x0c2b38, 0x06159c, 0x030ace,
    0x018567, 0xff38b7, 0x80665f, 0xbfc92b, 0xa01e91, 0xaff54c, 0x57faa6, 0x2bfd53,
    0xea04ad, 0x8af852, 0x457c29, 0xdd4410, 0x6ea208, 0x375104, 0x1ba882, 0x0dd441,
    0xf91024, 0x7c8812, 0x3e4409, 0xe0d800, 0x706c00, 0x383600, 0x1c1b00, 0x0e0d80,
    0x0706c0, 0x038360, 0x01c1b0, 0x00e0d8, 0x00706c, 0x003836, 0x001c1b, 0xfff409,
    0x000000, 0x000000, 0x000000, 0x000000, 0x000000, 0x000000, 0x000000, 0x000000,
    0x000000, 0x000000, 0x000000, 0x000000, 0x000000, 0x000000, 0x000000, 0x000000,
    0x000000, 0x000000, 0x000000, 0x000000, 0x000000, 0x000000, 0x000000, 0x000000]"

text \<open>The test \<^verbatim>\<open>msg[j/8] & (1 << (7 - j%8))\<close> of message bit \<open>j\<close>.\<close>

definition bitmask :: "nat \<Rightarrow> byte" where
  "bitmask j = push_bit (7 - j mod 8) 1"

definition msg_bit :: "byte list \<Rightarrow> nat \<Rightarrow> bool" where
  "msg_bit msg j = (msg ! (j div 8) AND bitmask j \<noteq> 0)"

text \<open>
  \<^verbatim>\<open>modesChecksum\<close>: the counted loop \<^verbatim>\<open>for (j = 0; j < bits; j++)\<close> folds
  over the bit indices in order.
\<close>

definition checksum_step :: "byte list \<Rightarrow> nat \<Rightarrow> nat \<Rightarrow> u32 \<Rightarrow> u32" where
  "checksum_step msg offset j crc =
     (if msg_bit msg j then crc XOR modes_checksum_table ! (j + offset) else crc)"

definition modesChecksum :: "byte list \<Rightarrow> nat \<Rightarrow> u32" where
  "modesChecksum msg bits =
     (let offset = (if bits = 112 then 0 else 112 - 56)
      in fold (checksum_step msg offset) [0..<bits] 0)"

definition modesMessageLenByType :: "int \<Rightarrow> nat" where
  "modesMessageLenByType type =
     (if type = 16 \<or> type = 17 \<or> type = 19 \<or> type = 20 \<or> type = 21
      then MODES_LONG_MSG_BITS else MODES_SHORT_MSG_BITS)"

text \<open>
  The 24-bit value in the last three bytes of a frame of \<open>bits\<close> bits, as both
  \<^verbatim>\<open>fixSingleBitErrors\<close> and \<^verbatim>\<open>decodeModesMessage\<close> assemble it.
\<close>

definition trailing_crc :: "byte list \<Rightarrow> nat \<Rightarrow> u32" where
  "trailing_crc msg bits =
     push_bit 16 (ucast (msg ! (bits div 8 - 3))) OR
     push_bit 8 (ucast (msg ! (bits div 8 - 2))) OR
     ucast (msg ! (bits div 8 - 1))"

text \<open>\<^verbatim>\<open>aux[byte] ^= bitmask\<close>: flip bit \<open>j\<close> of a buffer.\<close>

definition flip_bit_at :: "byte list \<Rightarrow> nat \<Rightarrow> byte list" where
  "flip_bit_at aux j = aux[j div 8 := aux ! (j div 8) XOR bitmask j]"

text \<open>
  \<^verbatim>\<open>fixSingleBitErrors\<close>.  The local array \<^verbatim>\<open>aux\<close> receives the first
  \<open>bits/8\<close> bytes of the message (\<^verbatim>\<open>memcpy\<close>), one bit is flipped, and on success
  the same number of bytes is copied back over the message.  The result is the returned
  bit position (\<open>-1\<close> for failure) and the message buffer after the call.
\<close>

function fixSingleBitErrors_from :: "byte list \<Rightarrow> nat \<Rightarrow> nat \<Rightarrow> int \<times> byte list" where
  "fixSingleBitErrors_from msg bits j =
     (if j < bits then
        (let aux = flip_bit_at (take (bits div 8) msg) j;
             crc1 = trailing_crc aux bits;
             crc2 = modesChecksum aux bits
         in if crc1 = crc2 then (int j, aux @ drop (bits div 8) msg)
            else fixSingleBitErrors_from msg bits (j + 1))
      else (-1, msg))"
  by pat_completeness auto
termination
  by (relation "measure (\<lambda>(msg, bits, j). bits - j)") auto

definition fixSingleBitErrors :: "byte list \<Rightarrow> nat \<Rightarrow> int \<times> byte list" where
  "fixSingleBitErrors msg bits = fixSingleBitErrors_from msg bits 0"

text \<open>
  \<^verbatim>\<open>fixTwoBitsErrors\<close>: the two nested loops, \<open>i\<close> starting at \<open>j + 1\<close>; the result
  packs both positions as \<^verbatim>\<open>j | (i << 8)\<close>.
\<close>

function fixTwoBitsErrors_from :: "byte list \<Rightarrow> nat \<Rightarrow> nat \<Rightarrow> nat \<Rightarrow> int \<times> byte list" where
  "fixTwoBitsErrors_from msg bits j i =
     (if j < bits then
        (if i < bits then
           (let aux = flip_bit_at (flip_bit_at (take (bits div 8) msg) j) i;
                crc1 = trailing_crc aux bits;
                crc2 = modesChecksum aux bits
            in if crc1 = crc2
               then (int j OR push_bit 8 (int i), aux @ drop (bits div 8) msg)
               else fixTwoBitsErrors_from msg bits j (i + 1))
         else fixTwoBitsErrors_from msg bits (j + 1) (j + 2))
      else (-1, msg))"
  by pat_completeness auto
termination
  by (relation "measures [\<lambda>(msg, bits, j, i). bits - j, \<lambda>(msg, bits, j, i). bits - i]") auto

definition fixTwoBitsErrors :: "byte list \<Rightarrow> nat \<Rightarrow> int \<times> byte list" where
  "fixTwoBitsErrors msg bits = fixTwoBitsErrors_from msg bits 0 1"


section \<open>The cache of recently seen ICAO addresses\<close>

text \<open>
  \<^verbatim>\<open>Modes.icao_cache\<close> is an array of \<open>2 * MODES_ICAO_CACHE_LEN\<close> 32-bit words,
  zeroed by \<^verbatim>\<open>modesInit\<close>: slot \<open>h\<close> holds the address at index \<open>2h\<close> and the time
  stamp at \<open>2h + 1\<close>.  It is a store from indices to words.  The clock
  \<^verbatim>\<open>time(NULL)\<close> is an input \<open>now\<close>, a \<^verbatim>\<open>time_t\<close> read as an integer (a 64-bit
  \<^verbatim>\<open>time_t\<close>, whose subtraction cannot overflow on any reachable clock value).
\<close>

type_synonym icao_cache = "nat \<Rightarrow> u32"

definition icao_cache_init :: icao_cache where
  "icao_cache_init = (\<lambda>_. 0)"

definition ICAOCacheHashAddress :: "u32 \<Rightarrow> u32" where
  "ICAOCacheHashAddress a0 =
     (let a1 = (drop_bit 16 a0 XOR a0) * 0x45d9f3b;
          a2 = (drop_bit 16 a1 XOR a1) * 0x45d9f3b;
          a3 = (drop_bit 16 a2 XOR a2)
      in a3 AND (word_of_nat MODES_ICAO_CACHE_LEN - 1))"

definition addRecentlySeenICAOAddr :: "int \<Rightarrow> u32 \<Rightarrow> icao_cache \<Rightarrow> icao_cache" where
  "addRecentlySeenICAOAddr now addr cache =
     (let h = unat (ICAOCacheHashAddress addr)
      in cache(h * 2 := addr, h * 2 + 1 := word_of_int now))"

definition ICAOAddressWasRecentlySeen :: "int \<Rightarrow> icao_cache \<Rightarrow> u32 \<Rightarrow> bool" where
  "ICAOAddressWasRecentlySeen now cache addr =
     (let h = unat (ICAOCacheHashAddress addr);
          a = cache (h * 2);
          t = cache (h * 2 + 1)
      in a \<noteq> 0 \<and> a = addr \<and> now - uint t \<le> MODES_ICAO_CACHE_TTL)"

section \<open>The decoded message\<close>

text \<open>
  \<^verbatim>\<open>struct modesMessage\<close>.  Field names carry the prefix \<open>mm_\<close>.  The caller's
  struct is an uninitialised automatic variable and \<^verbatim>\<open>decodeModesMessage\<close> writes
  only the fields its downlink format calls for, so the decoder takes the previous
  contents of the struct as an argument and updates it.
\<close>

record modesMessage =
  mm_msg :: "byte list"
  mm_msgbits :: nat
  mm_msgtype :: int
  mm_crcok :: bool
  mm_crc :: u32
  mm_errorbit :: int
  mm_aa1 :: int
  mm_aa2 :: int
  mm_aa3 :: int
  mm_phase_corrected :: int
  mm_ca :: int
  mm_metype :: int
  mm_mesub :: int
  mm_heading_is_valid :: int
  mm_heading :: int
  mm_aircraft_type :: int
  mm_fflag :: int
  mm_tflag :: int
  mm_raw_latitude :: int
  mm_raw_longitude :: int
  mm_flight :: string
  mm_ew_dir :: int
  mm_ew_velocity :: int
  mm_ns_dir :: int
  mm_ns_velocity :: int
  mm_vert_rate_source :: int
  mm_vert_rate_sign :: int
  mm_vert_rate :: int
  mm_velocity :: int
  mm_fs :: int
  mm_dr :: int
  mm_um :: int
  mm_identity :: int
  mm_altitude :: int
  mm_unit :: int

record config =
  fix_errors :: bool
  check_crc :: bool
  aggressive :: bool
  stats :: bool
  interactive :: bool
  net :: bool

definition MODES_UNIT_FEET :: int where "MODES_UNIT_FEET = 0"
definition MODES_UNIT_METERS :: int where "MODES_UNIT_METERS = 1"

text \<open>\<^verbatim>\<open>msg[k]\<close> promoted to \<^verbatim>\<open>int\<close>.\<close>

definition byte_at :: "byte list \<Rightarrow> nat \<Rightarrow> int" where
  "byte_at m k = uint (m ! k)"

text \<open>
  Conversion of a \<^verbatim>\<open>double\<close> to \<^verbatim>\<open>int\<close> discards the fraction.  Doubles are
  idealised as reals; \<^verbatim>\<open>sqrt\<close> is correctly rounded and its argument here is an
  integer below \<open>2\<^sup>2\<^sup>1\<close>, so the truncated C result is the truncated real square root.
\<close>

definition c_trunc :: "real \<Rightarrow> int" where
  "c_trunc r = (if r < 0 then \<lceil>r\<rceil> else \<lfloor>r\<rfloor>)"

definition atan2 :: "real \<Rightarrow> real \<Rightarrow> real" where
  "atan2 y x =
     (if 0 < x then arctan (y / x)
      else if x < 0 \<and> 0 \<le> y then arctan (y / x) + pi
      else if x < 0 then arctan (y / x) - pi
      else if 0 < y then pi / 2
      else if y < 0 then - pi / 2
      else 0)"

definition bruteForceAP :: "int \<Rightarrow> icao_cache \<Rightarrow> byte list \<Rightarrow> modesMessage \<Rightarrow> bool \<times> modesMessage" where
  "bruteForceAP now cache m mm =
     (let msgtype = mm_msgtype mm; msgbits = mm_msgbits mm
      in if msgtype = 0 \<or> msgtype = 4 \<or> msgtype = 5 \<or> msgtype = 16 \<or>
            msgtype = 20 \<or> msgtype = 21 \<or> msgtype = 24
         then
           (let lastbyte = msgbits div 8 - 1;
                aux = take (msgbits div 8) m;
                crc = modesChecksum aux msgbits;
                aux1 = aux[lastbyte := aux ! lastbyte XOR ucast (crc AND 0xff)];
                aux2 = aux1[lastbyte - 1 := aux1 ! (lastbyte - 1) XOR ucast (drop_bit 8 crc AND 0xff)];
                aux3 = aux2[lastbyte - 2 := aux2 ! (lastbyte - 2) XOR ucast (drop_bit 16 crc AND 0xff)];
                addr = ucast (aux3 ! lastbyte) OR push_bit 8 (ucast (aux3 ! (lastbyte - 1))) OR
                       push_bit 16 (ucast (aux3 ! (lastbyte - 2)))
            in if ICAOAddressWasRecentlySeen now cache addr
               then (True, mm\<lparr>mm_aa1 := byte_at aux3 (lastbyte - 2),
                               mm_aa2 := byte_at aux3 (lastbyte - 1),
                               mm_aa3 := byte_at aux3 lastbyte\<rparr>)
               else (False, mm))
         else (False, mm))"

definition decodeAC13Field :: "byte list \<Rightarrow> int \<times> int" where
  "decodeAC13Field m =
     (let m_bit = byte_at m 3 AND push_bit 6 1;
          q_bit = byte_at m 3 AND push_bit 4 1
      in if m_bit = 0 then
           (if q_bit \<noteq> 0 then
              (let n = push_bit 6 (byte_at m 2 AND 31) OR
                       drop_bit 2 (byte_at m 3 AND 0x80) OR
                       drop_bit 1 (byte_at m 3 AND 0x20) OR
                       (byte_at m 3 AND 15)
               in (n * 25 - 1000, MODES_UNIT_FEET))
            else (0, MODES_UNIT_FEET))
         else (0, MODES_UNIT_METERS))"

definition decodeAC12Field :: "byte list \<Rightarrow> int \<Rightarrow> int \<times> int" where
  "decodeAC12Field m unit0 =
     (let q_bit = byte_at m 5 AND 1
      in if q_bit \<noteq> 0 then
           (let n = push_bit 4 (drop_bit 1 (byte_at m 5)) OR drop_bit 4 (byte_at m 6 AND 0xF0)
            in (n * 25 - 1000, MODES_UNIT_FEET))
         else (0, unit0))"

definition ais_charset :: string where
  "ais_charset = ''?ABCDEFGHIJKLMNOPQRSTUVWXYZ????? ???????????????0123456789??????''"

definition ais_char :: "int \<Rightarrow> char" where
  "ais_char i = ais_charset ! nat i"

text \<open>The squawk block of \<^verbatim>\<open>decodeModesMessage\<close>, from bytes 2 and 3 of the frame.\<close>

definition squawk_a :: "int \<Rightarrow> int \<Rightarrow> int" where
  "squawk_a m2 m3 = drop_bit 5 (m3 AND 0x80) OR drop_bit 0 (m2 AND 0x02) OR drop_bit 3 (m2 AND 0x08)"

definition squawk_b :: "int \<Rightarrow> int \<Rightarrow> int" where
  "squawk_b m2 m3 = push_bit 1 (m3 AND 0x02) OR drop_bit 2 (m3 AND 0x08) OR drop_bit 5 (m3 AND 0x20)"

definition squawk_c :: "int \<Rightarrow> int \<Rightarrow> int" where
  "squawk_c m2 m3 = push_bit 2 (m2 AND 0x01) OR drop_bit 1 (m2 AND 0x04) OR drop_bit 4 (m2 AND 0x10)"

definition squawk_d :: "int \<Rightarrow> int \<Rightarrow> int" where
  "squawk_d m2 m3 = push_bit 2 (m3 AND 0x01) OR drop_bit 1 (m3 AND 0x04) OR drop_bit 4 (m3 AND 0x10)"

definition decode_identity :: "byte \<Rightarrow> byte \<Rightarrow> int" where
  "decode_identity b2 b3 =
     (let a = squawk_a (uint b2) (uint b3);
          b = squawk_b (uint b2) (uint b3);
          c = squawk_c (uint b2) (uint b3);
          d = squawk_d (uint b2) (uint b3)
      in a * 1000 + b * 100 + c * 10 + d)"


text \<open>
  \<^verbatim>\<open>decodeModesMessage\<close>, in the order of the source: the copy and the CRC check with
  the optional repairs; the fields common to all formats; the address stage (AP recovery
  for the formats other than 11 and 17, the whitelist for these two); the 13-bit altitude;
  the extended squitter.  The downlink format is read once, before any repair, and is
  not read again.
\<close>

definition decode_crc :: "config \<Rightarrow> modesMessage \<Rightarrow> byte list \<Rightarrow> modesMessage" where
  "decode_crc cfg mm0 m0 =
     (let m = take MODES_LONG_MSG_BYTES m0;
          msgtype = drop_bit 3 (byte_at m 0);
          msgbits = modesMessageLenByType msgtype;
          crc = trailing_crc m msgbits;
          crc2 = modesChecksum m msgbits;
          mm1 = mm0\<lparr>mm_msg := m, mm_msgbits := msgbits, mm_msgtype := msgtype,
                    mm_crcok := (crc = crc2), mm_crc := crc, mm_errorbit := - 1\<rparr>
      in if \<not> mm_crcok mm1 \<and> fix_errors cfg \<and> (msgtype = 11 \<or> msgtype = 17) then
           (let (e1, m1) = fixSingleBitErrors m msgbits
            in if e1 \<noteq> - 1
               then mm1\<lparr>mm_msg := m1, mm_crcok := True,
                        mm_crc := modesChecksum m1 msgbits, mm_errorbit := e1\<rparr>
               else if aggressive cfg \<and> msgtype = 17 then
                 (let (e2, m2) = fixTwoBitsErrors m1 msgbits
                  in if e2 \<noteq> - 1
                     then mm1\<lparr>mm_msg := m2, mm_crcok := True,
                              mm_crc := modesChecksum m2 msgbits, mm_errorbit := e2\<rparr>
                     else mm1\<lparr>mm_msg := m2, mm_errorbit := e2\<rparr>)
               else mm1\<lparr>mm_msg := m1, mm_errorbit := e1\<rparr>)
         else mm1)"

definition decode_fields :: "modesMessage \<Rightarrow> modesMessage" where
  "decode_fields mm =
     (let m = mm_msg mm
      in mm\<lparr>mm_ca := byte_at m 0 AND 7,
             mm_aa1 := byte_at m 1,
             mm_aa2 := byte_at m 2,
             mm_aa3 := byte_at m 3,
             mm_metype := drop_bit 3 (byte_at m 4),
             mm_mesub := byte_at m 4 AND 7,
             mm_fs := byte_at m 0 AND 7,
             mm_dr := drop_bit 3 (byte_at m 1) AND 31,
             mm_um := push_bit 3 (byte_at m 1 AND 7) OR drop_bit 5 (byte_at m 2),
             mm_identity := decode_identity (m ! 2) (m ! 3)\<rparr>)"

definition icao_addr :: "modesMessage \<Rightarrow> u32" where
  "icao_addr mm = word_of_int (push_bit 16 (mm_aa1 mm) OR push_bit 8 (mm_aa2 mm) OR mm_aa3 mm)"

definition decode_address :: "int \<Rightarrow> icao_cache \<Rightarrow> modesMessage \<Rightarrow> modesMessage \<times> icao_cache" where
  "decode_address now cache mm =
     (if mm_msgtype mm \<noteq> 11 \<and> mm_msgtype mm \<noteq> 17 then
        (let (ok, mm') = bruteForceAP now cache (mm_msg mm) mm
         in (mm'\<lparr>mm_crcok := ok\<rparr>, cache))
      else if mm_crcok mm \<and> mm_errorbit mm = - 1 then
        (mm, addRecentlySeenICAOAddr now (icao_addr mm) cache)
      else (mm, cache))"

definition decode_altitude :: "modesMessage \<Rightarrow> modesMessage" where
  "decode_altitude mm =
     (if mm_msgtype mm = 0 \<or> mm_msgtype mm = 4 \<or> mm_msgtype mm = 16 \<or> mm_msgtype mm = 20
      then (let (alt, u) = decodeAC13Field (mm_msg mm) in mm\<lparr>mm_altitude := alt, mm_unit := u\<rparr>)
      else mm)"

definition decode_velocity :: "modesMessage \<Rightarrow> modesMessage" where
  "decode_velocity mm =
     (let m = mm_msg mm;
          ew_dir = drop_bit 2 (byte_at m 5 AND 4);
          ew_velocity = push_bit 8 (byte_at m 5 AND 3) OR byte_at m 6;
          ns_dir = drop_bit 7 (byte_at m 7 AND 0x80);
          ns_velocity = push_bit 3 (byte_at m 7 AND 0x7f) OR drop_bit 5 (byte_at m 8 AND 0xe0);
          velocity = c_trunc (sqrt (of_int (ns_velocity * ns_velocity + ew_velocity * ew_velocity)));
          heading =
            (if velocity \<noteq> 0 then
               (let ewv = (if ew_dir \<noteq> 0 then ew_velocity * - 1 else ew_velocity);
                    nsv = (if ns_dir \<noteq> 0 then ns_velocity * - 1 else ns_velocity);
                    h = c_trunc (atan2 (of_int ewv) (of_int nsv) * 360 / (pi * 2))
                in if h < 0 then h + 360 else h)
             else 0)
      in mm\<lparr>mm_heading := heading,
             mm_ew_dir := ew_dir,
             mm_ew_velocity := ew_velocity,
             mm_ns_dir := ns_dir,
             mm_ns_velocity := ns_velocity,
             mm_vert_rate_source := drop_bit 4 (byte_at m 8 AND 0x10),
             mm_vert_rate_sign := drop_bit 3 (byte_at m 8 AND 0x8),
             mm_vert_rate := push_bit 6 (byte_at m 8 AND 7) OR drop_bit 2 (byte_at m 9 AND 0xfc),
             mm_velocity := velocity\<rparr>)"

definition decode_extended_squitter :: "modesMessage \<Rightarrow> modesMessage" where
  "decode_extended_squitter mm =
     (let m = mm_msg mm; metype = mm_metype mm; mesub = mm_mesub mm
      in if mm_msgtype mm = 17 then
           (if 1 \<le> metype \<and> metype \<le> 4 then
              mm\<lparr>mm_aircraft_type := metype - 1,
                  mm_flight :=
                    [ais_char (drop_bit 2 (byte_at m 5)),
                     ais_char (push_bit 4 (byte_at m 5 AND 3) OR drop_bit 4 (byte_at m 6)),
                     ais_char (push_bit 2 (byte_at m 6 AND 15) OR drop_bit 6 (byte_at m 7)),
                     ais_char (byte_at m 7 AND 63),
                     ais_char (drop_bit 2 (byte_at m 8)),
                     ais_char (push_bit 4 (byte_at m 8 AND 3) OR drop_bit 4 (byte_at m 9)),
                     ais_char (push_bit 2 (byte_at m 9 AND 15) OR drop_bit 6 (byte_at m 10)),
                     ais_char (byte_at m 10 AND 63)]\<rparr>
            else if 9 \<le> metype \<and> metype \<le> 18 then
              (let (alt, u) = decodeAC12Field m (mm_unit mm)
               in mm\<lparr>mm_fflag := byte_at m 6 AND push_bit 2 1,
                      mm_tflag := byte_at m 6 AND push_bit 3 1,
                      mm_raw_latitude :=
                        push_bit 15 (byte_at m 6 AND 3) OR push_bit 7 (byte_at m 7) OR
                        drop_bit 1 (byte_at m 8),
                      mm_raw_longitude :=
                        push_bit 16 (byte_at m 8 AND 1) OR push_bit 8 (byte_at m 9) OR byte_at m 10,
                      mm_altitude := alt,
                      mm_unit := u\<rparr>)
            else if metype = 19 \<and> 1 \<le> mesub \<and> mesub \<le> 4 then
              (if mesub = 1 \<or> mesub = 2 then decode_velocity mm
               else if mesub = 3 \<or> mesub = 4 then
                 mm\<lparr>mm_heading_is_valid := byte_at m 5 AND push_bit 2 1,
                     mm_heading :=
                       c_trunc ((360 / 128) *
                         of_int (push_bit 5 (byte_at m 5 AND 3) OR drop_bit 3 (byte_at m 6)))\<rparr>
               else mm)
            else mm)
         else mm)"

definition decodeModesMessage ::
  "config \<Rightarrow> int \<Rightarrow> icao_cache \<Rightarrow> modesMessage \<Rightarrow> byte list \<Rightarrow> modesMessage \<times> icao_cache" where
  "decodeModesMessage cfg now cache mm0 m =
     (let mm1 = decode_fields (decode_crc cfg mm0 m);
          (mm2, cache') = decode_address now cache mm1;
          mm3 = decode_extended_squitter (decode_altitude mm2)
      in (mm3\<lparr>mm_phase_corrected := 0\<rparr>, cache'))"


section \<open>The aircraft tracker and the CPR resolver\<close>

text \<open>
  \<^verbatim>\<open>struct aircraft\<close>, with the prefix \<open>ac_\<close> where a name would clash.  The linked
  list \<^verbatim>\<open>Modes.aircrafts\<close> is a list, head first.  Latitude and longitude are
  doubles, idealised as reals; the properties proved about them concern which branch
  assigns them, not the rounding of the assigned value.
\<close>

record aircraft =
  ac_addr :: u32
  ac_hexaddr :: string
  ac_flight :: string
  ac_altitude :: int
  ac_speed :: int
  ac_track :: int
  ac_seen :: int
  ac_messages :: int
  odd_cprlat :: int
  odd_cprlon :: int
  even_cprlat :: int
  even_cprlon :: int
  ac_lat :: real
  ac_lon :: real
  odd_cprtime :: int
  even_cprtime :: int

definition hex_digit :: "nat \<Rightarrow> char" where
  "hex_digit n = ''0123456789abcdef'' ! (n mod 16)"

text \<open>\<^verbatim>\<open>snprintf(a->hexaddr, 7, "%06x", (int)addr)\<close> for an address of at most 24 bits.\<close>

definition hexaddr_of :: "u32 \<Rightarrow> string" where
  "hexaddr_of addr = map (\<lambda>k. hex_digit (unat (drop_bit (4 * k) addr))) [5, 4, 3, 2, 1, 0]"

definition interactiveCreateAircraft :: "int \<Rightarrow> u32 \<Rightarrow> aircraft" where
  "interactiveCreateAircraft now addr =
     \<lparr>ac_addr = addr, ac_hexaddr = hexaddr_of addr, ac_flight = [],
      ac_altitude = 0, ac_speed = 0, ac_track = 0, ac_seen = now, ac_messages = 0,
      odd_cprlat = 0, odd_cprlon = 0, even_cprlat = 0, even_cprlon = 0,
      ac_lat = 0, ac_lon = 0, odd_cprtime = 0, even_cprtime = 0\<rparr>"

definition interactiveFindAircraft :: "aircraft list \<Rightarrow> u32 \<Rightarrow> aircraft option" where
  "interactiveFindAircraft aircrafts addr = find (\<lambda>a. ac_addr a = addr) aircrafts"

text \<open>Writing through the pointer that \<^verbatim>\<open>interactiveFindAircraft\<close> returned.\<close>

fun store_aircraft :: "aircraft \<Rightarrow> aircraft list \<Rightarrow> aircraft list" where
  "store_aircraft a' [] = []"
| "store_aircraft a' (a # as) =
     (if ac_addr a = ac_addr a' then a' # as else a # store_aircraft a' as)"

text \<open>C's \<^verbatim>\<open>%\<close> truncates towards zero.\<close>

definition c_rem :: "int \<Rightarrow> int \<Rightarrow> int" where
  "c_rem a b = sgn a * (\<bar>a\<bar> mod \<bar>b\<bar>)"

definition cprModFunction :: "int \<Rightarrow> int \<Rightarrow> int" where
  "cprModFunction a b = (let res = c_rem a b in if res < 0 then res + b else res)"

text \<open>
  \<^verbatim>\<open>cprNLFunction\<close>: the chain of comparisons, as the rows (bound, result) in the
  order of the source; the final \<^verbatim>\<open>else\<close> returns 1.
\<close>

definition cprNL_rows :: "(real \<times> int) list" where
  "cprNL_rows =
    [(10.47047130, 59),
     (14.82817437, 58),
     (18.18626357, 57),
     (21.02939493, 56),
     (23.54504487, 55),
     (25.82924707, 54),
     (27.93898710, 53),
     (29.91135686, 52),
     (31.77209708, 51),
     (33.53993436, 50),
     (35.22899598, 49),
     (36.85025108, 48),
     (38.41241892, 47),
     (39.92256684, 46),
     (41.38651832, 45),
     (42.80914012, 44),
     (44.19454951, 43),
     (45.54626723, 42),
     (46.86733252, 41),
     (48.16039128, 40),
     (49.42776439, 39),
     (50.67150166, 38),
     (51.89342469, 37),
     (53.09516153, 36),
     (54.27817472, 35),
     (55.44378444, 34),
     (56.59318756, 33),
     (57.72747354, 32),
     (58.84763776, 31),
     (59.95459277, 30),
     (61.04917774, 29),
     (62.13216659, 28),
     (63.20427479, 27),
     (64.26616523, 26),
     (65.31845310, 25),
     (66.36171008, 24),
     (67.39646774, 23),
     (68.42322022, 22),
     (69.44242631, 21),
     (70.45451075, 20),
     (71.45986473, 19),
     (72.45884545, 18),
     (73.45177442, 17),
     (74.43893416, 16),
     (75.42056257, 15),
     (76.39684391, 14),
     (77.36789461, 13),
     (78.33374083, 12),
     (79.29428225, 11),
     (80.24923213, 10),
     (81.19801349, 9),
     (82.13956981, 8),
     (83.07199445, 7),
     (83.99173563, 6),
     (84.89166191, 5),
     (85.75541621, 4),
     (86.53536998, 3),
     (87.00000000, 2)]"

fun cprNL_chain :: "(real \<times> int) list \<Rightarrow> real \<Rightarrow> int" where
  "cprNL_chain [] lat = 1"
| "cprNL_chain ((bound, nl) # rows) lat = (if lat < bound then nl else cprNL_chain rows lat)"

definition cprNLFunction :: "real \<Rightarrow> int" where
  "cprNLFunction lat0 = (let lat = (if lat0 < 0 then - lat0 else lat0) in cprNL_chain cprNL_rows lat)"

definition cprNFunction :: "real \<Rightarrow> int \<Rightarrow> int" where
  "cprNFunction lat isodd = (let nl = cprNLFunction lat - isodd in if nl < 1 then 1 else nl)"

definition cprDlonFunction :: "real \<Rightarrow> int \<Rightarrow> real" where
  "cprDlonFunction lat isodd = 360 / of_int (cprNFunction lat isodd)"

definition cpr_rlat0 :: "aircraft \<Rightarrow> real" where
  "cpr_rlat0 a =
     (let lat0 = of_int (even_cprlat a); lat1 = of_int (odd_cprlat a);
          j = \<lfloor>((59 * lat0 - 60 * lat1) / 131072) + 0.5 :: real\<rfloor>;
          rlat0 = (360 / 60) * (of_int (cprModFunction j 60) + lat0 / 131072)
      in if rlat0 \<ge> 270 then rlat0 - 360 else rlat0)"

definition cpr_rlat1 :: "aircraft \<Rightarrow> real" where
  "cpr_rlat1 a =
     (let lat0 = of_int (even_cprlat a); lat1 = of_int (odd_cprlat a);
          j = \<lfloor>((59 * lat0 - 60 * lat1) / 131072) + 0.5 :: real\<rfloor>;
          rlat1 = (360 / 59) * (of_int (cprModFunction j 59) + lat1 / 131072)
      in if rlat1 \<ge> 270 then rlat1 - 360 else rlat1)"

definition cpr_wrap_lon :: "aircraft \<Rightarrow> aircraft" where
  "cpr_wrap_lon a = (if ac_lon a > 180 then a\<lparr>ac_lon := ac_lon a - 360\<rparr> else a)"

definition decodeCPR :: "aircraft \<Rightarrow> aircraft" where
  "decodeCPR a =
     (let lon0 = of_int (even_cprlon a); lon1 = of_int (odd_cprlon a);
          rlat0 = cpr_rlat0 a; rlat1 = cpr_rlat1 a
      in if cprNLFunction rlat0 \<noteq> cprNLFunction rlat1 then a
         else if even_cprtime a > odd_cprtime a then
           (let ni = cprNFunction rlat0 0;
                m = \<lfloor>(((lon0 * of_int (cprNLFunction rlat0 - 1)) -
                        (lon1 * of_int (cprNLFunction rlat0))) / 131072) + 0.5 :: real\<rfloor>
            in cpr_wrap_lon
                 (a\<lparr>ac_lon := cprDlonFunction rlat0 0 * (of_int (cprModFunction m ni) + lon0 / 131072),
                    ac_lat := rlat0\<rparr>))
         else
           (let ni = cprNFunction rlat1 1;
                m = \<lfloor>(((lon0 * of_int (cprNLFunction rlat1 - 1)) -
                        (lon1 * of_int (cprNLFunction rlat1))) / 131072) + 0.5 :: real\<rfloor>
            in cpr_wrap_lon
                 (a\<lparr>ac_lon := cprDlonFunction rlat1 1 * (of_int (cprModFunction m ni) + lon1 / 131072),
                    ac_lat := rlat1\<rparr>)))"

text \<open>
  The body of \<^verbatim>\<open>interactiveReceiveData\<close> after the aircraft has been found or
  created: what one message does to its record.  \<open>now\<close> is \<^verbatim>\<open>time(NULL)\<close> and
  \<open>now_ms\<close> is \<^verbatim>\<open>mstime()\<close>.
\<close>

definition update_aircraft :: "int \<Rightarrow> int \<Rightarrow> modesMessage \<Rightarrow> aircraft \<Rightarrow> aircraft" where
  "update_aircraft now now_ms mm a0 =
     (let a = a0\<lparr>ac_seen := now, ac_messages := ac_messages a0 + 1\<rparr>
      in if mm_msgtype mm = 0 \<or> mm_msgtype mm = 4 \<or> mm_msgtype mm = 20 then
           a\<lparr>ac_altitude := mm_altitude mm\<rparr>
         else if mm_msgtype mm = 17 then
           (if 1 \<le> mm_metype mm \<and> mm_metype mm \<le> 4 then
              a\<lparr>ac_flight := mm_flight mm\<rparr>
            else if 9 \<le> mm_metype mm \<and> mm_metype mm \<le> 18 then
              (let a1 = a\<lparr>ac_altitude := mm_altitude mm\<rparr>;
                   a2 = (if mm_fflag mm \<noteq> 0
                         then a1\<lparr>odd_cprlat := mm_raw_latitude mm,
                                 odd_cprlon := mm_raw_longitude mm,
                                 odd_cprtime := now_ms\<rparr>
                         else a1\<lparr>even_cprlat := mm_raw_latitude mm,
                                 even_cprlon := mm_raw_longitude mm,
                                 even_cprtime := now_ms\<rparr>)
               in if \<bar>even_cprtime a2 - odd_cprtime a2\<bar> \<le> 10000 then decodeCPR a2 else a2)
            else if mm_metype mm = 19 then
              (if mm_mesub mm = 1 \<or> mm_mesub mm = 2
               then a\<lparr>ac_speed := mm_velocity mm, ac_track := mm_heading mm\<rparr>
               else a)
            else a)
         else a)"

text \<open>
  \<^verbatim>\<open>interactiveReceiveData\<close>: the result is the aircraft the returned pointer
  designates (\<open>None\<close> for \<^verbatim>\<open>NULL\<close>) and the list afterwards.  The move-to-head branch
  is guarded by the constant 0 in the source and never runs.
\<close>

definition interactiveReceiveData ::
  "config \<Rightarrow> int \<Rightarrow> int \<Rightarrow> modesMessage \<Rightarrow> aircraft list \<Rightarrow> aircraft option \<times> aircraft list" where
  "interactiveReceiveData cfg now now_ms mm aircrafts =
     (if check_crc cfg \<and> \<not> mm_crcok mm then (None, aircrafts)
      else
        (let addr = icao_addr mm
         in case interactiveFindAircraft aircrafts addr of
              None \<Rightarrow>
                (let a = update_aircraft now now_ms mm (interactiveCreateAircraft now addr)
                 in (Some a, a # aircrafts))
            | Some a0 \<Rightarrow>
                (let a = update_aircraft now now_ms mm a0
                 in (Some a, store_aircraft a aircrafts))))"


section \<open>Using a decoded message\<close>

text \<open>
  The part of the global \<^verbatim>\<open>Modes\<close> that the main thread mutates while it handles a
  message.  The sinks (standard output and the client sockets) are a log of the calls made
  to them; the text each sink formats is outside the model.
\<close>

datatype sink_event =
    Displayed modesMessage
  | RawOutput modesMessage
  | SBSOutput modesMessage aircraft
  | TrajectoryOutput aircraft

record modes_state =
  st_icao_cache :: icao_cache
  st_aircrafts :: "aircraft list"
  stat_http_requests :: int
  stat_sbs_connections :: int
  stat_trajectory_connections :: int
  sink_log :: "sink_event list"

definition emit :: "sink_event \<Rightarrow> modes_state \<Rightarrow> modes_state" where
  "emit e st = st\<lparr>sink_log := sink_log st @ [e]\<rparr>"

definition track_message :: "config \<Rightarrow> int \<Rightarrow> int \<Rightarrow> modesMessage \<Rightarrow> modes_state \<Rightarrow> modes_state" where
  "track_message cfg now now_ms mm st =
     (let (a, aircrafts') = interactiveReceiveData cfg now now_ms mm (st_aircrafts st);
          st1 = st\<lparr>st_aircrafts := aircrafts'\<rparr>
      in case a of
           None \<Rightarrow> st1
         | Some ac \<Rightarrow>
             (let st2 = (if stat_sbs_connections st1 > 0 then emit (SBSOutput mm ac) st1 else st1)
              in if stat_trajectory_connections st2 > 0 then emit (TrajectoryOutput ac) st2 else st2))"

definition useModesMessage :: "config \<Rightarrow> int \<Rightarrow> int \<Rightarrow> modesMessage \<Rightarrow> modes_state \<Rightarrow> modes_state" where
  "useModesMessage cfg now now_ms mm st =
     (if \<not> stats cfg \<and> (\<not> check_crc cfg \<or> mm_crcok mm) then
        (let st1 = (if interactive cfg \<or> stat_http_requests st > 0 \<or>
                       stat_sbs_connections st > 0 \<or> stat_trajectory_connections st > 0
                    then track_message cfg now now_ms mm st else st);
             st2 = (if \<not> interactive cfg then emit (Displayed mm) st1 else st1)
         in if net cfg then emit (RawOutput mm) st2 else st2)
      else st)"

section \<open>Hex records\<close>

text \<open>
  A C string is a character buffer read up to its first NUL.  \<^verbatim>\<open>hexToBin\<close> walks the
  buffer through a pointer, here the offset \<open>p\<close>, and overwrites trailing white space with
  NUL.  \<^verbatim>\<open>char\<close> is signed on the targets of the program.
\<close>

definition NUL :: char where "NUL = CHR 0x00"

definition strlen :: "string \<Rightarrow> nat" where
  "strlen s = length (takeWhile (\<lambda>c. c \<noteq> NUL) s)"

definition isspace :: "char \<Rightarrow> bool" where
  "isspace c = (c = CHR '' '' \<or> c = CHR 0x09 \<or> c = CHR 0x0A \<or> c = CHR 0x0B \<or> c = CHR 0x0C \<or> c = CHR 0x0D)"

definition char_int :: "char \<Rightarrow> int" where
  "char_int c = (let n = int (of_char c) in if n < 128 then n else n - 256)"

definition tolower :: "int \<Rightarrow> int" where
  "tolower c = (if 65 \<le> c \<and> c \<le> 90 then c + 32 else c)"

definition hexDigitVal :: "int \<Rightarrow> int" where
  "hexDigitVal c0 =
     (let c = tolower c0
      in if c \<ge> 48 \<and> c \<le> 57 then c - 48
         else if c \<ge> 97 \<and> c \<le> 102 then c - 97 + 10
         else - 1)"

function hexToBin_strip_right :: "string \<Rightarrow> nat \<Rightarrow> string \<times> nat" where
  "hexToBin_strip_right hex l =
     (if l \<noteq> 0 \<and> isspace (hex ! (l - 1))
      then hexToBin_strip_right (hex[l - 1 := NUL]) (l - 1)
      else (hex, l))"
  by pat_completeness auto
termination
  by (relation "measure (\<lambda>(hex, l). l)") auto

function hexToBin_skip_left :: "string \<Rightarrow> nat \<Rightarrow> int \<Rightarrow> nat \<times> int" where
  "hexToBin_skip_left hex p l =
     (if p < length hex \<and> isspace (hex ! p)
      then hexToBin_skip_left hex (p + 1) (l - 1)
      else (p, l))"
  by pat_completeness auto
termination
  by (relation "measure (\<lambda>(hex, p, l). length hex - p)") auto

function hexToBin_digits :: "string \<Rightarrow> nat \<Rightarrow> nat \<Rightarrow> nat \<Rightarrow> byte list \<Rightarrow> int \<times> byte list" where
  "hexToBin_digits hex p l j m =
     (if j < l then
        (let high = hexDigitVal (char_int (hex ! (p + j)));
             low = hexDigitVal (char_int (hex ! (p + j + 1)))
         in if high = - 1 \<or> low = - 1 then (0, m)
            else hexToBin_digits hex p l (j + 2) (m[j div 2 := word_of_int (push_bit 4 high OR low)]))
      else (0, m))"
  by pat_completeness auto
termination
  by (relation "measure (\<lambda>(hex, p, l, j, m). l - j)") auto

text \<open>
  \<^verbatim>\<open>hexToBin\<close>: the result is the returned \<^verbatim>\<open>int\<close>, the character buffer and the
  byte buffer \<^verbatim>\<open>msg\<close> after the call.  \<open>m\<close> is the content of \<^verbatim>\<open>msg\<close> before the
  call: the callers pass an automatic array that they have not initialised.
\<close>

definition hexToBin :: "string \<Rightarrow> byte list \<Rightarrow> int \<times> string \<times> byte list" where
  "hexToBin hex0 m =
     (let (hex, l0) = hexToBin_strip_right hex0 (strlen hex0);
          (p, l) = hexToBin_skip_left hex 0 (int l0)
      in if l < 2 \<or> hex ! p \<noteq> CHR ''*'' \<or> hex ! (p + nat l - 1) \<noteq> CHR '';'' then (0, hex, m)
         else if l - 2 > int (MODES_LONG_MSG_BYTES * 2) then (0, hex, m)
         else (let (r, m') = hexToBin_digits hex (p + 1) (nat (l - 2)) 0 m in (r, hex, m')))"

text \<open>
  \<^verbatim>\<open>decodeHexMessage\<close>, the handler of the raw input service.  \<open>m0\<close> and \<open>mm0\<close> are
  the contents of its automatic variables \<^verbatim>\<open>msg\<close> and \<^verbatim>\<open>mm\<close> on entry.  The
  result is the returned \<^verbatim>\<open>int\<close> read as a truth value, the client buffer and the state.
\<close>

definition decodeHexMessage ::
  "config \<Rightarrow> int \<Rightarrow> int \<Rightarrow> byte list \<Rightarrow> modesMessage \<Rightarrow> modes_state \<Rightarrow> string \<Rightarrow>
   bool \<times> string \<times> modes_state" where
  "decodeHexMessage cfg now now_ms m0 mm0 st buf =
     (let (r, buf', m) = hexToBin buf m0;
          (mm, cache') = decodeModesMessage cfg now (st_icao_cache st) mm0 m;
          st' = useModesMessage cfg now now_ms mm (st\<lparr>st_icao_cache := cache'\<rparr>)
      in (False, buf', st'))"


section \<open>Reading from a client\<close>

text \<open>
  \<^verbatim>\<open>struct client\<close>: \<open>c_buf\<close> is the array of \<open>MODES_CLIENT_BUF_SIZE + 1\<close> characters and
  \<open>c_buflen\<close> the number of live bytes.  What the non-blocking \<^verbatim>\<open>read\<close> returns is
  an input: the bytes that have arrived, end of file, \<^verbatim>\<open>EAGAIN\<close> or another error.  A
  call takes at most \<open>left\<close> of the bytes that have arrived; the others stay queued.  When
  the list of inputs is used up the socket has nothing more for now (\<^verbatim>\<open>EAGAIN\<close>).
\<close>

definition MODES_CLIENT_BUF_SIZE :: nat where "MODES_CLIENT_BUF_SIZE = 1024"

record client =
  c_fd :: int
  c_service :: int
  c_buf :: string
  c_buflen :: nat

datatype read_result = ReadData string | ReadEOF | ReadEAGAIN | ReadError

fun pending_size :: "read_result list \<Rightarrow> nat" where
  "pending_size [] = 0"
| "pending_size (ReadData bs # rs) = Suc (length bs + pending_size rs)"
| "pending_size (r # rs) = Suc (pending_size rs)"

text \<open>
  \<^verbatim>\<open>strstr\<close>: the index of the first occurrence.  Each scan of the client buffer
  follows the store \<^verbatim>\<open>c->buf[c->buflen] = '\0'\<close>, so the string scanned lies within
  the live bytes.
\<close>

definition strstr :: "string \<Rightarrow> string \<Rightarrow> nat option" where
  "strstr s sep = find (\<lambda>i. take (length sep) (drop i s) = sep) [0..<Suc (length s) - length sep]"

definition cstring :: "client \<Rightarrow> string" where
  "cstring c = takeWhile (\<lambda>ch. ch \<noteq> NUL) (take (c_buflen c) (c_buf c))"

text \<open>\<^verbatim>\<open>memmove(c->buf, c->buf + i, n)\<close>.\<close>

definition memmove_front :: "string \<Rightarrow> nat \<Rightarrow> nat \<Rightarrow> string" where
  "memmove_front buf i n = take n (drop i buf) @ drop n buf"

text \<open>
  The inner loop of \<^verbatim>\<open>modesReadFromClient\<close>, one iteration per complete message.
  The handler gets the state and the client buffer and returns whether to close, the
  buffer as it left it, and the state.  The result is the client (\<open>None\<close> once
  \<^verbatim>\<open>modesFreeClient\<close> has run), the state and the flag \<^verbatim>\<open>fullmsg\<close>.  With an empty
  separator \<^verbatim>\<open>strstr\<close> succeeds at index 0 for ever and the loop does not end: the
  outer \<open>None\<close> stands for that.  The program passes only the two separators below.
\<close>

function process_messages ::
  "('s \<Rightarrow> string \<Rightarrow> bool \<times> string \<times> 's) \<Rightarrow> string \<Rightarrow> client \<Rightarrow> 's \<Rightarrow> bool \<Rightarrow>
   (client option \<times> 's \<times> bool) option" where
  "process_messages handler sep c st fullmsg =
     (case strstr (cstring c) sep of
        None \<Rightarrow> Some (Some c, st, fullmsg)
      | Some i \<Rightarrow>
          if sep = [] then None
          else
            (case handler st ((c_buf c)[i := NUL]) of
               (close, buf', st') \<Rightarrow>
                 if close then Some (None, st', fullmsg)
                 else
                   (let i' = i + length sep;
                        n = c_buflen c - i'
                    in process_messages handler sep
                         (c\<lparr>c_buf := (memmove_front buf' i' n)[n := NUL], c_buflen := n\<rparr>) st' True)))"
  by pat_completeness auto
termination
proof (relation "measure (\<lambda>(handler, sep, c, st, fullmsg). c_buflen c)")
  show "wf (measure (\<lambda>(handler, sep, c, st, fullmsg). c_buflen c))" by simp
next
  fix handler :: "'s \<Rightarrow> string \<Rightarrow> bool \<times> string \<times> 's"
  fix sep :: string and c :: client and st :: 's and fullmsg :: bool and i :: nat
  fix x y close buf' st' i' n
  assume found: "strstr (cstring c) sep = Some i" and sep: "sep \<noteq> []"
    and i': "i' = i + length sep" and n: "n = c_buflen c - i'"
  from found have "i < Suc (length (cstring c)) - length sep"
    by (auto simp: strstr_def find_Some_iff)
  moreover have "length (cstring c) \<le> c_buflen c"
    unfolding cstring_def
    by (rule order_trans [OF length_takeWhile_le]) simp
  ultimately have "i' \<le> c_buflen c" "0 < i'"
    using sep i' by auto
  then show "((handler, sep, c\<lparr>c_buf := (memmove_front buf' i' n)[n := NUL], c_buflen := n\<rparr>, st', True),
              (handler, sep, c, st, fullmsg)) \<in> measure (\<lambda>(handler, sep, c, st, fullmsg). c_buflen c)"
    using n by simp
qed

text \<open>
  \<^verbatim>\<open>modesReadFromClient\<close>.  The result is the client (\<open>None\<close> once freed), the state and
  the inputs not yet consumed.
\<close>

function modesReadFromClient ::
  "('s \<Rightarrow> string \<Rightarrow> bool \<times> string \<times> 's) \<Rightarrow> string \<Rightarrow> client \<Rightarrow> 's \<Rightarrow> read_result list \<Rightarrow>
   (client option \<times> 's \<times> read_result list) option" where
  "modesReadFromClient handler sep c st [] = Some (Some c, st, [])"
| "modesReadFromClient handler sep c st (ReadEOF # rest) = Some (None, st, rest)"
| "modesReadFromClient handler sep c st (ReadError # rest) = Some (None, st, rest)"
| "modesReadFromClient handler sep c st (ReadEAGAIN # rest) = Some (Some c, st, rest)"
| "modesReadFromClient handler sep c st (ReadData bs # rest) =
     (let left = MODES_CLIENT_BUF_SIZE - c_buflen c;
          got = take left bs;
          rest' = (if drop left bs = [] then rest else ReadData (drop left bs) # rest)
      in if got = [] then Some (None, st, rest')
         else
           (let buflen = c_buflen c + length got;
                buf = take (c_buflen c) (c_buf c) @ got @ drop buflen (c_buf c);
                c1 = c\<lparr>c_buf := buf[buflen := NUL], c_buflen := buflen\<rparr>
            in case process_messages handler sep c1 st False of
                 None \<Rightarrow> None
               | Some (None, st', fullmsg) \<Rightarrow> Some (None, st', rest')
               | Some (Some c2, st', fullmsg) \<Rightarrow>
                   if c_buflen c2 = MODES_CLIENT_BUF_SIZE
                   then modesReadFromClient handler sep (c2\<lparr>c_buflen := 0\<rparr>) st' rest'
                   else if \<not> fullmsg then Some (Some c2, st', rest')
                   else modesReadFromClient handler sep c2 st' rest'))"
  by pat_completeness auto
termination
  by (relation "measure (\<lambda>(handler, sep, c, st, reads). pending_size reads)") auto

text \<open>The two services that \<^verbatim>\<open>modesReadFromClients\<close> reads from.\<close>

definition raw_input_sep :: string where "raw_input_sep = [CHR 0x0A]"
definition http_sep :: string where "http_sep = [CHR 0x0D, CHR 0x0A, CHR 0x0D, CHR 0x0A]"


section \<open>Sample frames\<close>

text \<open>
  The DF17 identification frame \<^verbatim>\<open>*8D4840D6202CC371C32CE0576098;\<close> (address
  4840D6, callsign KLM1023), and the same frame with bit 37 flipped.
\<close>

definition frame_klm :: "byte list" where
  "frame_klm = [0x8D, 0x48, 0x40, 0xD6, 0x20, 0x2C, 0xC3, 0x71, 0xC3, 0x2C, 0xE0, 0x57, 0x60, 0x98]"

definition frame_klm_bit37 :: "byte list" where
  "frame_klm_bit37 = [0x8D, 0x48, 0x40, 0xD6, 0x24, 0x2C, 0xC3, 0x71, 0xC3, 0x2C, 0xE0, 0x57, 0x60, 0x98]"

text \<open>
  A DF17 airborne velocity frame (type 19, subtype 1) with both velocity fields equal to
  2 and a valid checksum.
\<close>

definition frame_velocity :: "byte list" where
  "frame_velocity = [0x8D, 0x48, 0x40, 0xD6, 0x99, 0x00, 0x02, 0x00, 0x40, 0x00, 0x00, 0x19, 0x35, 0x19]"

text \<open>
  The configuration that \<^verbatim>\<open>modesInitConfig\<close> sets up, and a message struct whose
  memory is all zero, as one value that the uninitialised struct can have.
\<close>

definition modesInitConfig :: config where
  "modesInitConfig =
     \<lparr>fix_errors = True, check_crc = True, aggressive = False, stats = False,
      interactive = False, net = False\<rparr>"

definition mm_zero :: modesMessage where
  "mm_zero =
     \<lparr>mm_msg = replicate 14 0, mm_msgbits = 0, mm_msgtype = 0, mm_crcok = False, mm_crc = 0,
      mm_errorbit = 0, mm_aa1 = 0, mm_aa2 = 0, mm_aa3 = 0, mm_phase_corrected = 0, mm_ca = 0,
      mm_metype = 0, mm_mesub = 0, mm_heading_is_valid = 0, mm_heading = 0,
      mm_aircraft_type = 0, mm_fflag = 0, mm_tflag = 0, mm_raw_latitude = 0,
      mm_raw_longitude = 0, mm_flight = [], mm_ew_dir = 0, mm_ew_velocity = 0, mm_ns_dir = 0,
      mm_ns_velocity = 0, mm_vert_rate_source = 0, mm_vert_rate_sign = 0, mm_vert_rate = 0,
      mm_velocity = 0, mm_fs = 0, mm_dr = 0, mm_um = 0, mm_identity = 0, mm_altitude = 0,
      mm_unit = 0\<rparr>"

text \<open>
  An aircraft holding the even and odd airborne positions of the published worked example
  of the global decode, both captured at the same millisecond.
\<close>

definition aircraft_cpr_pair :: aircraft where
  "aircraft_cpr_pair =
     (interactiveCreateAircraft 0 0x4840D6)
       \<lparr>odd_cprlat := 74158, odd_cprlon := 50194, even_cprlat := 93000, even_cprlon := 51372,
        odd_cprtime := 5000, even_cprtime := 5000\<rparr>"

text \<open>
  A decoded even airborne position message (type 11) with a valid checksum, and the record
  of an aircraft created by this message, when the clock reads 5 s after the epoch and when
  it reads a present-day value.
\<close>

definition even_position_message :: modesMessage where
  "even_position_message =
     mm_zero\<lparr>mm_msgbits := 112, mm_msgtype := 17, mm_crcok := True, mm_errorbit := - 1,
             mm_aa1 := 0x48, mm_aa2 := 0x40, mm_aa3 := 0xD6, mm_metype := 11,
             mm_raw_latitude := 93000, mm_raw_longitude := 51372\<rparr>"

definition aircraft_at_epoch :: aircraft where
  "aircraft_at_epoch =
     update_aircraft 5 5000 even_position_message
       (interactiveCreateAircraft 5 (icao_addr even_position_message))"

definition aircraft_today :: aircraft where
  "aircraft_today =
     update_aircraft 1700000000 1700000000000 even_position_message
       (interactiveCreateAircraft 1700000000 (icao_addr even_position_message))"

text \<open>
  A client of the raw input service with an empty buffer, and a handler that accepts every
  message and changes nothing.
\<close>

definition fresh_client :: client where
  "fresh_client = \<lparr>c_fd = 7, c_service = 1, c_buf = replicate 1025 NUL, c_buflen = 0\<rparr>"

definition accept_handler :: "unit \<Rightarrow> string \<Rightarrow> bool \<times> string \<times> unit" where
  "accept_handler st buf = (False, buf, st)"

text \<open>
  A malformed hex record, as the NUL-terminated string that the handler finds in the
  client buffer: the fourteen digits of a DF11 frame with a valid checksum, then two
  characters that are not hex digits.  Next to it, the frame that its first seven bytes
  spell, and the state of a process that has just been initialised.
\<close>

definition malformed_line :: string where
  "malformed_line = ''*5D4840D6F8740FZZ;'' @ [NUL]"

definition frame_df11 :: "byte list" where
  "frame_df11 = [0x5D, 0x48, 0x40, 0xD6, 0xF8, 0x74, 0x0F]"

definition modesInit :: modes_state where
  "modesInit =
     \<lparr>st_icao_cache = icao_cache_init, st_aircrafts = [], stat_http_requests = 0,
      stat_sbs_connections = 0, stat_trajectory_connections = 0, sink_log = []\<rparr>"

text \<open>The velocity frame decoded under the initial configuration with an empty cache.\<close>

definition decoded_velocity_frame :: modesMessage where
  "decoded_velocity_frame =
     fst (decodeModesMessage modesInitConfig 1000 icao_cache_init mm_zero frame_velocity)"

section \<open>Auxiliary notions for the proofs\<close>

text \<open>
  The effect of flipping message bit \<open>j\<close> on the difference between the stored and the
  computed checksum of a frame of \<open>bits\<close> bits, and that difference itself.
\<close>

definition syndrome :: "nat \<Rightarrow> nat \<Rightarrow> u32" where
  "syndrome bits j =
     modes_checksum_table ! (j + (if bits = 112 then 0 else 112 - 56)) XOR
     (if bits - 24 \<le> j then push_bit (bits - 1 - j) 1 else 0)"

definition residual :: "byte list \<Rightarrow> nat \<Rightarrow> u32" where
  "residual aux bits = trailing_crc aux bits XOR modesChecksum aux bits"


text \<open>
  The Gillham encoding of four octal digits, as the integer values of bytes 2 and 3 with
  every other bit clear; the proofs use it as the inverse of the squawk decoder.
\<close>

definition squawk_encode :: "int \<Rightarrow> int \<Rightarrow> int \<Rightarrow> int \<Rightarrow> int \<times> int" where
  "squawk_encode a b c d =
     (c div 4 + 2 * (a div 2 mod 2) + 4 * (c div 2 mod 2) + 8 * (a mod 2) + 16 * (c mod 2),
      d div 4 + 2 * (b div 4) + 4 * (d div 2 mod 2) + 8 * (b div 2 mod 2) + 16 * (d mod 2) +
      32 * (b mod 2) + 128 * (a div 4))"

text \<open>
  The two assignments of \<^verbatim>\<open>decodeCPR\<close>, from the even and from the odd snapshot, each
  with the final wrap of the longitude.
\<close>

definition cpr_use_even :: "aircraft \<Rightarrow> aircraft" where
  "cpr_use_even a =
     (let lon0 = of_int (even_cprlon a); lon1 = of_int (odd_cprlon a); rlat0 = cpr_rlat0 a;
          ni = cprNFunction rlat0 0;
          m = \<lfloor>(((lon0 * of_int (cprNLFunction rlat0 - 1)) -
                  (lon1 * of_int (cprNLFunction rlat0))) / 131072) + 0.5 :: real\<rfloor>
      in cpr_wrap_lon
           (a\<lparr>ac_lon := cprDlonFunction rlat0 0 * (of_int (cprModFunction m ni) + lon0 / 131072),
              ac_lat := rlat0\<rparr>))"

definition cpr_use_odd :: "aircraft \<Rightarrow> aircraft" where
  "cpr_use_odd a =
     (let lon0 = of_int (even_cprlon a); lon1 = of_int (odd_cprlon a); rlat1 = cpr_rlat1 a;
          ni = cprNFunction rlat1 1;
          m = \<lfloor>(((lon0 * of_int (cprNLFunction rlat1 - 1)) -
                  (lon1 * of_int (cprNLFunction rlat1))) / 131072) + 0.5 :: real\<rfloor>
      in cpr_wrap_lon
           (a\<lparr>ac_lon := cprDlonFunction rlat1 1 * (of_int (cprModFunction m ni) + lon1 / 131072),
              ac_lat := rlat1\<rparr>))"

text \<open>
  The record of an aircraft once \<^verbatim>\<open>interactiveReceiveData\<close> has stored the snapshot of an
  airborne position message in it, before the resolver is considered.
\<close>

definition stored_snapshot :: "int \<Rightarrow> int \<Rightarrow> modesMessage \<Rightarrow> aircraft \<Rightarrow> aircraft" where
  "stored_snapshot now now_ms mm a0 =
     (let a1 = a0\<lparr>ac_seen := now, ac_messages := ac_messages a0 + 1, ac_altitude := mm_altitude mm\<rparr>
      in if mm_fflag mm \<noteq> 0
         then a1\<lparr>odd_cprlat := mm_raw_latitude mm, odd_cprlon := mm_raw_longitude mm,
                 odd_cprtime := now_ms\<rparr>
         else a1\<lparr>even_cprlat := mm_raw_latitude mm, even_cprlon := mm_raw_longitude mm,
                 even_cprtime := now_ms\<rparr>)"

text \<open>
  The client once \<^verbatim>\<open>modesReadFromClient\<close> has added the bytes of a read to its buffer
  and stored the terminating NUL.
\<close>

definition client_after_read :: "client \<Rightarrow> string \<Rightarrow> client" where
  "client_after_read c got =
     c\<lparr>c_buf := (take (c_buflen c) (c_buf c) @ got @
                  drop (c_buflen c + length got) (c_buf c))[c_buflen c + length got := NUL],
       c_buflen := c_buflen c + length got\<rparr>"

section \<open>Bit length of a frame\<close>

lemma decode_crc_type:
  "mm_msgtype (decode_crc cfg mm0 m) = drop_bit 3 (byte_at (take 14 m) 0)"
  "mm_msgbits (decode_crc cfg mm0 m) = modesMessageLenByType (drop_bit 3 (byte_at (take 14 m) 0))"
  by (simp_all add: decode_crc_def Let_def MODES_LONG_MSG_BYTES_def split: prod.splits)

lemma decode_fields_type [simp]:
  "mm_msgtype (decode_fields mm) = mm_msgtype mm"
  "mm_msgbits (decode_fields mm) = mm_msgbits mm"
  by (simp_all add: decode_fields_def Let_def)

lemma bruteForceAP_type [simp]:
  "mm_msgtype (snd (bruteForceAP now cache m mm)) = mm_msgtype mm"
  "mm_msgbits (snd (bruteForceAP now cache m mm)) = mm_msgbits mm"
  by (simp_all add: bruteForceAP_def Let_def)

lemma decode_address_type [simp]:
  "mm_msgtype (fst (decode_address now cache mm)) = mm_msgtype mm"
  "mm_msgbits (fst (decode_address now cache mm)) = mm_msgbits mm"
  by (simp_all add: decode_address_def split_def Let_def)

lemma decode_altitude_type [simp]:
  "mm_msgtype (decode_altitude mm) = mm_msgtype mm"
  "mm_msgbits (decode_altitude mm) = mm_msgbits mm"
  by (simp_all add: decode_altitude_def split_def Let_def)

lemma decode_velocity_type [simp]:
  "mm_msgtype (decode_velocity mm) = mm_msgtype mm"
  "mm_msgbits (decode_velocity mm) = mm_msgbits mm"
  by (simp_all add: decode_velocity_def Let_def)

lemma decode_extended_squitter_type [simp]:
  "mm_msgtype (decode_extended_squitter mm) = mm_msgtype mm"
  "mm_msgbits (decode_extended_squitter mm) = mm_msgbits mm"
  by (simp_all add: decode_extended_squitter_def Let_def split_def)

lemma decodeModesMessage_type:
  "mm_msgtype (fst (decodeModesMessage cfg now cache mm0 m)) = drop_bit 3 (byte_at (take 14 m) 0)"
  "mm_msgbits (fst (decodeModesMessage cfg now cache mm0 m)) =
     modesMessageLenByType (drop_bit 3 (byte_at (take 14 m) 0))"
  by (simp_all add: decodeModesMessage_def Let_def decode_crc_type split_def)


text \<open>
  C9.  The bit length that \<^verbatim>\<open>decodeModesMessage\<close> derives for a frame is 112 exactly
  when the downlink format, the high five bits of byte 0, is one of 16, 17, 19, 20, 21,
  and 56 for every other format.
\<close>

theorem msgbits_by_downlink_format:
  "mm_msgtype (fst (decodeModesMessage cfg now cache mm0 m)) = uint (drop_bit 3 (m ! 0)) \<and>
   mm_msgbits (fst (decodeModesMessage cfg now cache mm0 m)) =
     (if mm_msgtype (fst (decodeModesMessage cfg now cache mm0 m)) \<in> {16, 17, 19, 20, 21}
      then 112 else 56)"
  by (simp add: decodeModesMessage_type modesMessageLenByType_def byte_at_def
      MODES_LONG_MSG_BITS_def MODES_SHORT_MSG_BITS_def unsigned_drop_bit_eq bintr_uint)

section \<open>Single-bit repair\<close>


lemma and_bitmask_iff: "(b AND bitmask j \<noteq> 0) = bit b (7 - j mod 8)"
  unfolding bitmask_def
  by (simp add: and_exp_eq_0_iff_not_bit push_bit_eq_mult)

lemma bit_xor_bitmask: "n < 8 \<Longrightarrow> bit (b XOR bitmask k) n = (bit b n \<noteq> (n = 7 - k mod 8))"
  unfolding bitmask_def
  by (auto simp add: bit_simps)

lemma msg_bit_flip:
  assumes "k < 8 * length aux"
  shows "msg_bit (flip_bit_at aux k) j = (msg_bit aux j \<noteq> (j = k))"
proof (cases "j div 8 = k div 8")
  case True
  have kl: "k div 8 < length aux" using assms by auto
  have "(j = k) = (j mod 8 = k mod 8)"
    using True by (metis div_mult_mod_eq)
  moreover have "j mod 8 < 8" "k mod 8 < 8" by simp_all
  ultimately have "(j = k) = (7 - j mod 8 = 7 - k mod 8)" by linarith
  then show ?thesis
    using True kl by (simp add: msg_bit_def flip_bit_at_def and_bitmask_iff bit_xor_bitmask)
next
  case False
  then have "j \<noteq> k" by auto
  then show ?thesis using False
    by (simp add: msg_bit_def flip_bit_at_def)
qed

lemma checksum_step_xor:
  "checksum_step aux off j (c XOR t) = checksum_step aux off j c XOR t"
  by (simp add: checksum_step_def ac_simps)

lemma fold_checksum_xor:
  "fold (checksum_step aux off) xs (c XOR t) = fold (checksum_step aux off) xs c XOR t"
  by (induction xs arbitrary: c) (simp_all add: checksum_step_xor)

lemma checksum_step_flip:
  assumes "k < 8 * length aux"
  shows "checksum_step (flip_bit_at aux k) off x c =
         checksum_step aux off x c XOR (if x = k then modes_checksum_table ! (k + off) else 0)"
  by (simp add: checksum_step_def msg_bit_flip [OF assms] xor.assoc)

lemma fold_checksum_flip:
  assumes "k < 8 * length aux" and "distinct xs"
  shows "fold (checksum_step (flip_bit_at aux k) off) xs c =
         fold (checksum_step aux off) xs c XOR
           (if k \<in> set xs then modes_checksum_table ! (k + off) else 0)"
  using assms(2)
proof (induction xs arbitrary: c)
  case Nil
  then show ?case by simp
next
  case (Cons x xs)
  then have IH: "\<And>c. fold (checksum_step (flip_bit_at aux k) off) xs c =
         fold (checksum_step aux off) xs c XOR
           (if k \<in> set xs then modes_checksum_table ! (k + off) else 0)"
    by simp
  show ?case
  proof (cases "x = k")
    case True
    then have "k \<notin> set xs" using Cons.prems by simp
    then show ?thesis
      using True
      by (simp only: fold_simps o_apply IH)
         (simp add: checksum_step_flip [OF assms(1)] fold_checksum_xor)
  next
    case False
    then show ?thesis
      by (simp only: fold_simps o_apply IH)
         (simp add: checksum_step_flip [OF assms(1)])
  qed
qed

lemma trailing_flip_hi_m:
  "m < 8 \<Longrightarrow> push_bit 16 (ucast (a XOR push_bit m 1)) OR push_bit 8 (ucast b) OR ucast c =
     (push_bit 16 (ucast (a::byte)) OR push_bit 8 (ucast (b::byte)) OR ucast (c::byte)) XOR push_bit (16 + m) (1::u32)"
  by (rule bit_word_eqI) (auto simp: bit_simps dest: bit_imp_le_length)

lemma trailing_flip_mid_m:
  "m < 8 \<Longrightarrow> push_bit 16 (ucast a) OR push_bit 8 (ucast (b XOR push_bit m 1)) OR ucast c =
     (push_bit 16 (ucast (a::byte)) OR push_bit 8 (ucast (b::byte)) OR ucast (c::byte)) XOR push_bit (8 + m) (1::u32)"
  by (rule bit_word_eqI) (auto simp: bit_simps dest: bit_imp_le_length)

lemma trailing_flip_lo_m:
  "m < 8 \<Longrightarrow> push_bit 16 (ucast a) OR push_bit 8 (ucast b) OR ucast (c XOR push_bit m 1) =
     (push_bit 16 (ucast (a::byte)) OR push_bit 8 (ucast (b::byte)) OR ucast (c::byte)) XOR push_bit m (1::u32)"
  by (rule bit_word_eqI) (auto simp: bit_simps dest: bit_imp_le_length)

lemma trailing_flip_hi:
  "push_bit 16 (ucast (a XOR bitmask k)) OR push_bit 8 (ucast b) OR ucast c =
     (push_bit 16 (ucast (a::byte)) OR push_bit 8 (ucast (b::byte)) OR ucast (c::byte)) XOR
     push_bit (16 + (7 - k mod 8)) (1::u32)"
  unfolding bitmask_def by (rule trailing_flip_hi_m) simp

lemma trailing_flip_mid:
  "push_bit 16 (ucast a) OR push_bit 8 (ucast (b XOR bitmask k)) OR ucast c =
     (push_bit 16 (ucast (a::byte)) OR push_bit 8 (ucast (b::byte)) OR ucast (c::byte)) XOR
     push_bit (8 + (7 - k mod 8)) (1::u32)"
  unfolding bitmask_def by (rule trailing_flip_mid_m) simp

lemma trailing_flip_lo:
  "push_bit 16 (ucast a) OR push_bit 8 (ucast b) OR ucast (c XOR bitmask k) =
     (push_bit 16 (ucast (a::byte)) OR push_bit 8 (ucast (b::byte)) OR ucast (c::byte)) XOR
     push_bit (7 - k mod 8) (1::u32)"
  unfolding bitmask_def by (rule trailing_flip_lo_m) simp

lemma modesChecksum_flip:
  assumes "k < 8 * length aux" "k < bits"
  shows "modesChecksum (flip_bit_at aux k) bits =
         modesChecksum aux bits XOR modes_checksum_table ! (k + (if bits = 112 then 0 else 112 - 56))"
  using assms(2) by (simp add: modesChecksum_def Let_def fold_checksum_flip [OF assms(1)])

lemma trailing_pos:
  fixes r :: nat
  assumes "r < 8"
  shows "8 * n + r = k \<Longrightarrow> 8 * n \<le> k \<and> 8 * (n + 3) - 1 - k = 16 + (7 - r)"
    and "8 * (n + 1) + r = k \<Longrightarrow> 8 * n \<le> k \<and> 8 * (n + 3) - 1 - k = 8 + (7 - r)"
    and "8 * (n + 2) + r = k \<Longrightarrow> 8 * n \<le> k \<and> 8 * (n + 3) - 1 - k = 7 - r"
  using assms by auto

lemma trailing_crc_flip_at:
  assumes "length aux = n + 3" "k < 8 * (n + 3)"
  shows "trailing_crc (flip_bit_at aux k) (8 * (n + 3)) =
         trailing_crc aux (8 * (n + 3)) XOR
           (if 8 * n \<le> k then push_bit (8 * (n + 3) - 1 - k) 1 else 0)"
proof -
  have kk: "k = 8 * (k div 8) + k mod 8" by simp
  have k8: "k mod 8 < 8" by simp
  have kd: "k div 8 < n + 3" using assms(2) by auto
  consider (hi) "k div 8 = n" | (mid) "k div 8 = n + 1" | (lo) "k div 8 = n + 2"
    | (data) "k div 8 < n" using kd by linarith
  then show ?thesis
  proof cases
    case hi
    have "8 * n \<le> k" "8 * (n + 3) - 1 - k = 16 + (7 - k mod 8)"
    proof -
      have "8 * n + k mod 8 = k" using mult_div_mod_eq [of 8 k] unfolding hi .
      then show "8 * n \<le> k" "8 * (n + 3) - 1 - k = 16 + (7 - k mod 8)"
        using trailing_pos(1) [OF k8] by blast+
    qed
    then show ?thesis using hi assms(1)
      by (simp add: trailing_crc_def flip_bit_at_def trailing_flip_hi del: push_bit_of_1)
  next
    case mid
    have "8 * n \<le> k" "8 * (n + 3) - 1 - k = 8 + (7 - k mod 8)"
    proof -
      have "8 * (n + 1) + k mod 8 = k" using mult_div_mod_eq [of 8 k] unfolding mid .
      then show "8 * n \<le> k" "8 * (n + 3) - 1 - k = 8 + (7 - k mod 8)"
        using trailing_pos(2) [OF k8] by blast+
    qed
    then show ?thesis using mid assms(1)
      by (simp add: trailing_crc_def flip_bit_at_def trailing_flip_mid del: push_bit_of_1)
  next
    case lo
    have "8 * n \<le> k" "8 * (n + 3) - 1 - k = 7 - k mod 8"
    proof -
      have "8 * (n + 2) + k mod 8 = k" using mult_div_mod_eq [of 8 k] unfolding lo .
      then show "8 * n \<le> k" "8 * (n + 3) - 1 - k = 7 - k mod 8"
        using trailing_pos(3) [OF k8] by blast+
    qed
    then show ?thesis using lo assms(1)
      by (simp add: trailing_crc_def flip_bit_at_def trailing_flip_lo del: push_bit_of_1)
  next
    case data
    have "\<not> 8 * n \<le> k"
    proof -
      have "k < 8 * n" using data by (simp add: div_less_iff_less_mult)
      then show ?thesis by simp
    qed
    then show ?thesis using data assms(1)
      by (simp add: trailing_crc_def flip_bit_at_def)
  qed
qed

lemma trailing_crc_flip:
  assumes "bits = 56 \<or> bits = 112" "k < bits" "length aux = bits div 8"
  shows "trailing_crc (flip_bit_at aux k) bits =
         trailing_crc aux bits XOR (if bits - 24 \<le> k then push_bit (bits - 1 - k) 1 else 0)"
  using assms(1)
proof
  assume b: "bits = 56"
  show ?thesis using trailing_crc_flip_at [of aux 4 k] assms(2,3) by (simp add: b)
next
  assume b: "bits = 112"
  show ?thesis using trailing_crc_flip_at [of aux 11 k] assms(2,3) by (simp add: b)
qed

lemma residual_flip:
  assumes "bits = 56 \<or> bits = 112" "k < bits" "length aux = bits div 8"
  shows "residual (flip_bit_at aux k) bits = residual aux bits XOR syndrome bits k"
proof -
  have "k < 8 * length aux" using assms by auto
  then show ?thesis
    using assms
    by (simp add: residual_def syndrome_def modesChecksum_flip trailing_crc_flip ac_simps)
qed


lemma syndrome_distinct_112: "distinct (map (syndrome 112) [0..<112])"
  by code_simp

lemma syndrome_distinct_56: "distinct (map (syndrome 56) [0..<56])"
  by code_simp

lemma syndrome_inj:
  assumes "bits = 56 \<or> bits = 112" "j < bits" "k < bits"
    and "syndrome bits j = syndrome bits k"
  shows "j = k"
proof -
  have d: "distinct (map (syndrome bits) [0..<bits])"
    using assms(1) syndrome_distinct_56 syndrome_distinct_112 by auto
  have "map (syndrome bits) [0..<bits] ! j = map (syndrome bits) [0..<bits] ! k"
    using assms(2-4) by simp
  then show ?thesis
    using d assms(2,3) by (simp add: nth_eq_iff_index_eq del: nth_map nth_upt)
qed

lemma msg_bit_take: "j < 8 * n \<Longrightarrow> msg_bit (take n msg) j = msg_bit msg j"
  by (simp add: msg_bit_def div_less_iff_less_mult)

lemma modesChecksum_take:
  assumes "bits \<le> 8 * n"
  shows "modesChecksum (take n msg) bits = modesChecksum msg bits"
proof -
  have "fold (checksum_step (take n msg) off) [0..<bits] c =
        fold (checksum_step msg off) [0..<bits] c" for off c
    using assms by (intro fold_cong) (auto simp: checksum_step_def msg_bit_take)
  then show ?thesis by (simp add: modesChecksum_def Let_def)
qed

lemma trailing_crc_take:
  "0 < bits div 8 \<Longrightarrow> trailing_crc (take (bits div 8) msg) bits = trailing_crc msg bits"
  by (simp add: trailing_crc_def)

lemma flip_bit_at_twice: "k div 8 < length xs \<Longrightarrow> flip_bit_at (flip_bit_at xs k) k = xs"
  by (simp add: flip_bit_at_def xor.assoc)

lemma xor_zero_imp_eq:
  fixes a b :: u32
  assumes "a XOR b = 0"
  shows "a = b"
proof -
  have "a = (a XOR b) XOR b" by (simp add: xor.assoc)
  then show ?thesis using assms by simp
qed

lemma length_flip_bit_at [simp]: "length (flip_bit_at xs k) = length xs"
  by (simp add: flip_bit_at_def)

declare fixSingleBitErrors_from.simps [simp del]

lemma fixSingleBitErrors_from_finds:
  assumes bits: "bits = 56 \<or> bits = 112"
    and len: "bits div 8 \<le> length F"
    and ok: "modesChecksum F bits = trailing_crc F bits"
    and k: "k < bits"
    and j: "j \<le> k"
  shows "fixSingleBitErrors_from (flip_bit_at F k) bits j = (int k, F)"
  using j
proof (induction "k - j" arbitrary: j)
  case 0
  then have jk: "j = k" by simp
  let ?n = "bits div 8"
  have n: "bits = 8 * ?n" "0 < ?n" using bits by auto
  have kn: "k div 8 < ?n" using k bits by auto
  have tk: "take ?n (flip_bit_at F k) = flip_bit_at (take ?n F) k"
    using kn by (simp add: flip_bit_at_def take_update_swap)
  have ff: "flip_bit_at (flip_bit_at (take ?n F) k) k = take ?n F"
    using kn len by (simp add: flip_bit_at_twice)
  have dr: "drop ?n (flip_bit_at F k) = drop ?n F"
    using kn by (simp add: flip_bit_at_def)
  have "trailing_crc (take ?n F) bits = modesChecksum (take ?n F) bits"
    using ok n by (simp add: trailing_crc_take modesChecksum_take)
  then show ?case
    using k by (subst fixSingleBitErrors_from.simps) (simp add: jk tk ff dr Let_def)
next
  case (Suc d)
  then have jk: "j < k" "d = k - (j + 1)" "j + 1 \<le> k" by simp_all
  let ?n = "bits div 8"
  let ?G = "take ?n F"
  have n: "bits = 8 * ?n" "0 < ?n" using bits by auto
  have kn: "k div 8 < ?n" using k bits by auto
  have lG: "length ?G = ?n" using len by simp
  have tk: "take ?n (flip_bit_at F k) = flip_bit_at ?G k"
    using kn by (simp add: flip_bit_at_def take_update_swap)
  have r0: "residual ?G bits = 0"
    using ok n by (simp add: residual_def trailing_crc_take modesChecksum_take)
  have jb: "j < bits" using jk(1) k by simp
  have lG': "length (flip_bit_at ?G k) = ?n" using lG by simp
  have "residual (flip_bit_at (flip_bit_at ?G k) j) bits = syndrome bits k XOR syndrome bits j"
    by (simp add: residual_flip [OF bits jb lG'] residual_flip [OF bits k lG] r0)
  moreover have "syndrome bits k XOR syndrome bits j \<noteq> 0"
    using syndrome_inj [OF bits jb k] jk(1) xor_zero_imp_eq [of "syndrome bits k" "syndrome bits j"]
    by auto
  ultimately have ne: "trailing_crc (flip_bit_at (flip_bit_at ?G k) j) bits \<noteq>
      modesChecksum (flip_bit_at (flip_bit_at ?G k) j) bits"
    by (auto simp: residual_def)
  show ?case
    using jk(1) k ne Suc.hyps(1) [OF jk(2) jk(3)]
    by (subst fixSingleBitErrors_from.simps) (simp add: tk Let_def)
qed


text \<open>
  C3.  Take a frame of 56 or 112 bits (the lengths of DF11 and DF17) whose computed
  checksum equals the checksum in its last three bytes, and flip any one bit \<open>k\<close> of it.
  \<^verbatim>\<open>fixSingleBitErrors\<close> on the corrupted frame returns \<open>k\<close> and leaves the original
  bytes in the buffer, whose computed checksum equals the stored one.
\<close>

theorem fixSingleBitErrors_recovers_flipped_bit:
  assumes "bits = 56 \<or> bits = 112"
    and "bits div 8 \<le> length F"
    and "modesChecksum F bits = trailing_crc F bits"
    and "k < bits"
  shows "fixSingleBitErrors (flip_bit_at F k) bits = (int k, F) \<and>
         modesChecksum (snd (fixSingleBitErrors (flip_bit_at F k) bits)) bits =
         trailing_crc (snd (fixSingleBitErrors (flip_bit_at F k) bits)) bits"
  using assms fixSingleBitErrors_from_finds [OF assms, of 0]
  by (simp add: fixSingleBitErrors_def)


lemma frame_klm_checksum: "modesChecksum frame_klm 112 = trailing_crc frame_klm 112"
  by code_simp

lemma frame_klm_flip37: "flip_bit_at frame_klm 37 = frame_klm_bit37"
  by (simp add: frame_klm_def frame_klm_bit37_def flip_bit_at_def bitmask_def)

theorem fixSingleBitErrors_recovers_flipped_bit_witness:
  "(112 = 56 \<or> 112 = (112::nat)) \<and> 112 div 8 \<le> length frame_klm \<and>
   modesChecksum frame_klm 112 = trailing_crc frame_klm 112 \<and> (37::nat) < 112 \<and>
   fixSingleBitErrors frame_klm_bit37 112 = (37, frame_klm) \<and>
   modesChecksum (snd (fixSingleBitErrors frame_klm_bit37 112)) 112 =
   trailing_crc (snd (fixSingleBitErrors frame_klm_bit37 112)) 112"
proof -
  have len: "112 div 8 \<le> length frame_klm" by (simp add: frame_klm_def)
  show ?thesis
    using fixSingleBitErrors_recovers_flipped_bit [of 112 frame_klm 37, OF _ len frame_klm_checksum]
    using len frame_klm_checksum by (simp add: frame_klm_flip37)
qed

section \<open>The recency cache\<close>

lemma hash0: "ICAOCacheHashAddress 0 = 0"
  by (simp add: ICAOCacheHashAddress_def)

text \<open>
  The lookup never reports address 0, the value of an empty slot, and a time stamp is
  kept modulo \<open>2\<^sup>3\<^sup>2\<close>: the slot of address 0 holds it right after its insertion, within the
  time to live, and the lookup fails; an address inserted at \<open>2\<^sup>3\<^sup>2\<close> seconds is not found
  at that same second.
\<close>

theorem icao_cache_lookup_counterexample:
  "(addRecentlySeenICAOAddr 100 0 icao_cache_init (unat (ICAOCacheHashAddress 0) * 2) = 0 \<and>
    100 - uint (addRecentlySeenICAOAddr 100 0 icao_cache_init (unat (ICAOCacheHashAddress 0) * 2 + 1)) \<le> 60 \<and>
    \<not> ICAOAddressWasRecentlySeen 100 (addRecentlySeenICAOAddr 100 0 icao_cache_init) 0) \<and>
   \<not> ICAOAddressWasRecentlySeen 4294967296 (addRecentlySeenICAOAddr 4294967296 0x4840D6 icao_cache_init) 0x4840D6"
  by (simp add: ICAOAddressWasRecentlySeen_def addRecentlySeenICAOAddr_def hash0 Let_def
      icao_cache_init_def MODES_ICAO_CACHE_TTL_def)

lemma add_other_slot:
  assumes "ICAOCacheHashAddress a \<noteq> ICAOCacheHashAddress addr"
  shows "addRecentlySeenICAOAddr t a cache (unat (ICAOCacheHashAddress addr) * 2) =
           cache (unat (ICAOCacheHashAddress addr) * 2)"
    and "addRecentlySeenICAOAddr t a cache (Suc (unat (ICAOCacheHashAddress addr) * 2)) =
           cache (Suc (unat (ICAOCacheHashAddress addr) * 2))"
proof -
  have "unat (ICAOCacheHashAddress a) \<noteq> unat (ICAOCacheHashAddress addr)"
    using assms by (simp add: word_unat_eq_iff)
  then show "addRecentlySeenICAOAddr t a cache (unat (ICAOCacheHashAddress addr) * 2) =
           cache (unat (ICAOCacheHashAddress addr) * 2)"
    and "addRecentlySeenICAOAddr t a cache (Suc (unat (ICAOCacheHashAddress addr) * 2)) =
           cache (Suc (unat (ICAOCacheHashAddress addr) * 2))"
    by (auto simp: addRecentlySeenICAOAddr_def Let_def)
qed

lemma fold_add_other_slots:
  assumes "\<forall>(a, t) \<in> set later. ICAOCacheHashAddress a \<noteq> ICAOCacheHashAddress addr"
  shows "fold (\<lambda>(a, t). addRecentlySeenICAOAddr t a) later cache (unat (ICAOCacheHashAddress addr) * 2) =
           cache (unat (ICAOCacheHashAddress addr) * 2) \<and>
         fold (\<lambda>(a, t). addRecentlySeenICAOAddr t a) later cache (unat (ICAOCacheHashAddress addr) * 2 + 1) =
           cache (unat (ICAOCacheHashAddress addr) * 2 + 1)"
  using assms
  by (induction later arbitrary: cache) (auto simp: add_other_slot)

text \<open>
  C4 (amended).  Address 0 is never reported as recently seen, whatever the cache holds.
  For every address other than 0, \<^verbatim>\<open>ICAOAddressWasRecentlySeen\<close> holds exactly when the
  slot of the address holds it and the lookup time minus the stored time stamp is at most
  60.  Hence, when the address was inserted at a time \<open>t0\<close> that fits 32 bits and no later
  insertion went to its slot, a lookup at a time \<open>now\<close> with \<open>now - t0 \<le> 60\<close> succeeds.
\<close>

theorem icao_cache_lookup:
  "\<not> ICAOAddressWasRecentlySeen now cache 0 \<and>
   (addr \<noteq> 0 \<longrightarrow>
     (ICAOAddressWasRecentlySeen now cache addr \<longleftrightarrow>
        cache (unat (ICAOCacheHashAddress addr) * 2) = addr \<and>
        now - uint (cache (unat (ICAOCacheHashAddress addr) * 2 + 1)) \<le> 60) \<and>
     (0 \<le> t0 \<and> t0 < 2 ^ 32 \<and> now - t0 \<le> 60 \<and>
      (\<forall>(a, t) \<in> set later. ICAOCacheHashAddress a \<noteq> ICAOCacheHashAddress addr) \<longrightarrow>
      ICAOAddressWasRecentlySeen now
        (fold (\<lambda>(a, t). addRecentlySeenICAOAddr t a) later (addRecentlySeenICAOAddr t0 addr cache))
        addr))"
proof (intro conjI impI)
  show "\<not> ICAOAddressWasRecentlySeen now cache 0"
    by (simp add: ICAOAddressWasRecentlySeen_def Let_def)
next
  assume "addr \<noteq> 0"
  then show "ICAOAddressWasRecentlySeen now cache addr \<longleftrightarrow>
            cache (unat (ICAOCacheHashAddress addr) * 2) = addr \<and>
            now - uint (cache (unat (ICAOCacheHashAddress addr) * 2 + 1)) \<le> 60"
    by (auto simp: ICAOAddressWasRecentlySeen_def Let_def MODES_ICAO_CACHE_TTL_def)
next
  assume nz: "addr \<noteq> 0"
  assume h: "0 \<le> t0 \<and> t0 < 2 ^ 32 \<and> now - t0 \<le> 60 \<and>
          (\<forall>(a, t) \<in> set later. ICAOCacheHashAddress a \<noteq> ICAOCacheHashAddress addr)"
  let ?c1 = "addRecentlySeenICAOAddr t0 addr cache"
  let ?h = "unat (ICAOCacheHashAddress addr)"
  have slot: "?c1 (?h * 2) = addr" "?c1 (?h * 2 + 1) = word_of_int t0"
    by (simp_all add: addRecentlySeenICAOAddr_def Let_def)
  have "uint (word_of_int t0 :: u32) = t0"
    using h by (simp add: uint_word_of_int take_bit_eq_mod)
  then show "ICAOAddressWasRecentlySeen now
            (fold (\<lambda>(a, t). addRecentlySeenICAOAddr t a) later ?c1) addr"
    using h nz fold_add_other_slots [of later addr ?c1] slot
    by (simp add: ICAOAddressWasRecentlySeen_def Let_def MODES_ICAO_CACHE_TTL_def)
qed

lemma hash_klm: "ICAOCacheHashAddress 0x4840D6 \<noteq> ICAOCacheHashAddress 0xABCDEF"
  by (simp add: ICAOCacheHashAddress_def MODES_ICAO_CACHE_LEN_def)

theorem icao_cache_lookup_witness:
  "(0x4840D6 :: u32) \<noteq> 0 \<and> (0::int) \<le> 1000 \<and> (1000::int) < 2 ^ 32 \<and> (1050::int) - 1000 \<le> 60 \<and>
   ICAOCacheHashAddress 0xABCDEF \<noteq> ICAOCacheHashAddress 0x4840D6 \<and>
   ICAOAddressWasRecentlySeen 1050
     (fold (\<lambda>(a, t). addRecentlySeenICAOAddr t a) [(0xABCDEF, 1010)]
        (addRecentlySeenICAOAddr 1000 0x4840D6 icao_cache_init)) 0x4840D6 \<and>
   \<not> ICAOAddressWasRecentlySeen 1050 icao_cache_init 0"
  using icao_cache_lookup [of 1050 icao_cache_init "0x4840D6" 1000 "[(0xABCDEF, 1010)]"]
    hash_klm hash_klm [symmetric]
  by simp

section \<open>Seeding the recency cache\<close>

lemma decode_altitude_keeps [simp]:
  "mm_crcok (decode_altitude mm) = mm_crcok mm"
  "mm_errorbit (decode_altitude mm) = mm_errorbit mm"
  "mm_aa1 (decode_altitude mm) = mm_aa1 mm"
  "mm_aa2 (decode_altitude mm) = mm_aa2 mm"
  "mm_aa3 (decode_altitude mm) = mm_aa3 mm"
  by (simp_all add: decode_altitude_def split_def Let_def)

lemma decode_velocity_keeps [simp]:
  "mm_crcok (decode_velocity mm) = mm_crcok mm"
  "mm_errorbit (decode_velocity mm) = mm_errorbit mm"
  "mm_aa1 (decode_velocity mm) = mm_aa1 mm"
  "mm_aa2 (decode_velocity mm) = mm_aa2 mm"
  "mm_aa3 (decode_velocity mm) = mm_aa3 mm"
  by (simp_all add: decode_velocity_def Let_def)

lemma decode_extended_squitter_keeps [simp]:
  "mm_crcok (decode_extended_squitter mm) = mm_crcok mm"
  "mm_errorbit (decode_extended_squitter mm) = mm_errorbit mm"
  "mm_aa1 (decode_extended_squitter mm) = mm_aa1 mm"
  "mm_aa2 (decode_extended_squitter mm) = mm_aa2 mm"
  "mm_aa3 (decode_extended_squitter mm) = mm_aa3 mm"
  by (simp_all add: decode_extended_squitter_def split_def Let_def)

lemma decode_fields_keeps [simp]:
  "mm_crcok (decode_fields mm) = mm_crcok mm"
  "mm_errorbit (decode_fields mm) = mm_errorbit mm"
  by (simp_all add: decode_fields_def Let_def)

lemma bruteForceAP_errorbit [simp]:
  "mm_errorbit (snd (bruteForceAP now cache m mm)) = mm_errorbit mm"
  by (simp add: bruteForceAP_def Let_def)

lemma decode_address_errorbit [simp]:
  "mm_errorbit (fst (decode_address now cache mm)) = mm_errorbit mm"
  by (simp add: decode_address_def split_def Let_def)

lemma decodeModesMessage_errorbit:
  "mm_errorbit (fst (decodeModesMessage cfg now cache mm0 m)) = mm_errorbit (decode_crc cfg mm0 m)"
  by (simp add: decodeModesMessage_def split_def Let_def)

lemma decode_address_cases:
  "decode_address now cache mm =
     (if mm_msgtype mm \<noteq> 11 \<and> mm_msgtype mm \<noteq> 17
      then ((snd (bruteForceAP now cache (mm_msg mm) mm))\<lparr>mm_crcok := fst (bruteForceAP now cache (mm_msg mm) mm)\<rparr>, cache)
      else (mm, if mm_crcok mm \<and> mm_errorbit mm = - 1
                then addRecentlySeenICAOAddr now (icao_addr mm) cache else cache))"
  by (simp add: decode_address_def split_def Let_def)

lemma decode_crc_clean:
  assumes "mm_crcok (decode_crc cfg mm0 m)" "mm_errorbit (decode_crc cfg mm0 m) = - 1"
  shows "mm_msg (decode_crc cfg mm0 m) = take 14 m"
  using assms
  by (auto simp: decode_crc_def Let_def split_def MODES_LONG_MSG_BYTES_def split: if_splits)

lemma decodeModesMessage_clean:
  assumes "mm_msgtype (fst (decodeModesMessage cfg now cache mm0 m)) = 11 \<or>
           mm_msgtype (fst (decodeModesMessage cfg now cache mm0 m)) = 17"
    and "mm_crcok (fst (decodeModesMessage cfg now cache mm0 m))"
    and "mm_errorbit (fst (decodeModesMessage cfg now cache mm0 m)) = - 1"
  shows "mm_crcok (decode_crc cfg mm0 m) \<and> mm_errorbit (decode_crc cfg mm0 m) = - 1"
  using assms
  by (simp add: decodeModesMessage_def Let_def split_def decode_address_cases split: if_splits)

lemma frame_address_word:
  "(word_of_int (push_bit 16 (uint (b1 :: byte)) OR push_bit 8 (uint (b2 :: byte)) OR uint (b3 :: byte)) :: u32) =
     push_bit 16 (ucast b1) OR push_bit 8 (ucast b2) OR ucast b3"
  by (simp add: of_int_or_eq of_int_push_bit)

lemma decodeModesMessage_address:
  assumes "mm_msgtype (fst (decodeModesMessage cfg now cache mm0 m)) = 11 \<or>
           mm_msgtype (fst (decodeModesMessage cfg now cache mm0 m)) = 17"
    and "mm_crcok (fst (decodeModesMessage cfg now cache mm0 m))"
    and "mm_errorbit (fst (decodeModesMessage cfg now cache mm0 m)) = - 1"
  shows "icao_addr (fst (decodeModesMessage cfg now cache mm0 m)) =
           push_bit 16 (ucast (m ! 1)) OR push_bit 8 (ucast (m ! 2)) OR ucast (m ! 3)"
proof -
  from decodeModesMessage_clean [OF assms]
  have msg: "mm_msg (decode_crc cfg mm0 m) = take 14 m"
    by (simp add: decode_crc_clean)
  have "icao_addr (fst (decodeModesMessage cfg now cache mm0 m)) =
          icao_addr (decode_fields (decode_crc cfg mm0 m))"
    using assms
    by (auto simp: decodeModesMessage_def Let_def split_def decode_address_cases icao_addr_def
        split: if_splits)
  also have "\<dots> = push_bit 16 (ucast (m ! 1)) OR push_bit 8 (ucast (m ! 2)) OR ucast (m ! 3)"
    by (simp add: icao_addr_def decode_fields_def Let_def msg byte_at_def frame_address_word)
  finally show ?thesis .
qed

text \<open>
  C2.  After decoding a frame, the cache is the old cache with the frame's address
  inserted when the downlink format is 11 or 17, the CRC is valid and no bit was corrected,
  and is the old cache unchanged in every other case; in particular it is unchanged
  whenever a bit was corrected.  In the inserting case the address is the one that bytes
  1 to 3 of the received frame spell, its slot holds that address and the time of the
  insertion as a 32-bit word, and every other index of the cache keeps its value.
\<close>

theorem whitelist_insertion_iff:
  "snd (decodeModesMessage cfg now cache mm0 m) =
     (if (mm_msgtype (fst (decodeModesMessage cfg now cache mm0 m)) = 11 \<or>
          mm_msgtype (fst (decodeModesMessage cfg now cache mm0 m)) = 17) \<and>
         mm_crcok (fst (decodeModesMessage cfg now cache mm0 m)) \<and>
         mm_errorbit (fst (decodeModesMessage cfg now cache mm0 m)) = - 1
      then addRecentlySeenICAOAddr now (icao_addr (fst (decodeModesMessage cfg now cache mm0 m))) cache
      else cache) \<and>
   (mm_errorbit (fst (decodeModesMessage cfg now cache mm0 m)) \<noteq> - 1 \<longrightarrow>
      snd (decodeModesMessage cfg now cache mm0 m) = cache) \<and>
   ((mm_msgtype (fst (decodeModesMessage cfg now cache mm0 m)) = 11 \<or>
     mm_msgtype (fst (decodeModesMessage cfg now cache mm0 m)) = 17) \<and>
    mm_crcok (fst (decodeModesMessage cfg now cache mm0 m)) \<and>
    mm_errorbit (fst (decodeModesMessage cfg now cache mm0 m)) = - 1 \<longrightarrow>
      (let a = push_bit 16 (ucast (m ! 1)) OR push_bit 8 (ucast (m ! 2)) OR ucast (m ! 3);
           h = unat (ICAOCacheHashAddress a)
       in icao_addr (fst (decodeModesMessage cfg now cache mm0 m)) = a \<and>
          snd (decodeModesMessage cfg now cache mm0 m) (h * 2) = a \<and>
          snd (decodeModesMessage cfg now cache mm0 m) (h * 2 + 1) = word_of_int now \<and>
          (\<forall>i. i \<noteq> h * 2 \<and> i \<noteq> h * 2 + 1 \<longrightarrow>
             snd (decodeModesMessage cfg now cache mm0 m) i = cache i)))"
proof (intro conjI impI)
  show ins: "snd (decodeModesMessage cfg now cache mm0 m) =
     (if (mm_msgtype (fst (decodeModesMessage cfg now cache mm0 m)) = 11 \<or>
          mm_msgtype (fst (decodeModesMessage cfg now cache mm0 m)) = 17) \<and>
         mm_crcok (fst (decodeModesMessage cfg now cache mm0 m)) \<and>
         mm_errorbit (fst (decodeModesMessage cfg now cache mm0 m)) = - 1
      then addRecentlySeenICAOAddr now (icao_addr (fst (decodeModesMessage cfg now cache mm0 m))) cache
      else cache)"
    by (simp add: decodeModesMessage_def Let_def split_def decode_address_cases icao_addr_def)
  show "snd (decodeModesMessage cfg now cache mm0 m) = cache"
    if "mm_errorbit (fst (decodeModesMessage cfg now cache mm0 m)) \<noteq> - 1"
    using that by (simp add: ins)
  show "let a = push_bit 16 (ucast (m ! 1)) OR push_bit 8 (ucast (m ! 2)) OR ucast (m ! 3);
           h = unat (ICAOCacheHashAddress a)
       in icao_addr (fst (decodeModesMessage cfg now cache mm0 m)) = a \<and>
          snd (decodeModesMessage cfg now cache mm0 m) (h * 2) = a \<and>
          snd (decodeModesMessage cfg now cache mm0 m) (h * 2 + 1) = word_of_int now \<and>
          (\<forall>i. i \<noteq> h * 2 \<and> i \<noteq> h * 2 + 1 \<longrightarrow>
             snd (decodeModesMessage cfg now cache mm0 m) i = cache i)"
    if c: "(mm_msgtype (fst (decodeModesMessage cfg now cache mm0 m)) = 11 \<or>
     mm_msgtype (fst (decodeModesMessage cfg now cache mm0 m)) = 17) \<and>
    mm_crcok (fst (decodeModesMessage cfg now cache mm0 m)) \<and>
    mm_errorbit (fst (decodeModesMessage cfg now cache mm0 m)) = - 1"
  proof -
    from c have a: "icao_addr (fst (decodeModesMessage cfg now cache mm0 m)) =
           push_bit 16 (ucast (m ! 1)) OR push_bit 8 (ucast (m ! 2)) OR ucast (m ! 3)"
      by (simp add: decodeModesMessage_address)
    from c have s: "snd (decodeModesMessage cfg now cache mm0 m) =
        addRecentlySeenICAOAddr now (icao_addr (fst (decodeModesMessage cfg now cache mm0 m))) cache"
      by (subst ins) simp
    define A :: u32 where
      "A = push_bit 16 (ucast (m ! 1)) OR push_bit 8 (ucast (m ! 2)) OR ucast (m ! 3)"
    show ?thesis
      unfolding Let_def s unfolding a A_def [symmetric]
      by (simp add: addRecentlySeenICAOAddr_def Let_def)
  qed
qed

lemma frame_klm_bit37_bad: "trailing_crc frame_klm_bit37 112 \<noteq> modesChecksum frame_klm_bit37 112"
  by code_simp

lemma frame_klm_bit37_repair: "fixSingleBitErrors frame_klm_bit37 112 = (37, frame_klm)"
proof -
  have "112 div 8 \<le> length frame_klm" by (simp add: frame_klm_def)
  from fixSingleBitErrors_from_finds [of 112 frame_klm 37 0, OF _ this frame_klm_checksum]
  show ?thesis by (simp add: fixSingleBitErrors_def frame_klm_flip37)
qed

lemma frame_klm_bit37_type: "drop_bit 3 (byte_at (take 14 frame_klm_bit37) 0) = 17"
  by (simp add: frame_klm_bit37_def byte_at_def drop_bit_eq_div)

lemma frame_klm_bit37_errorbit:
  "mm_errorbit (decode_crc modesInitConfig mm0 frame_klm_bit37) = 37"
proof -
  have t: "take 14 frame_klm_bit37 = frame_klm_bit37" by (simp add: frame_klm_bit37_def)
  show ?thesis
    using frame_klm_bit37_type frame_klm_bit37_bad
    by (simp add: decode_crc_def Let_def MODES_LONG_MSG_BYTES_def t modesMessageLenByType_def
        MODES_LONG_MSG_BITS_def frame_klm_bit37_repair modesInitConfig_def)
qed

lemma frame_klm_decode_crc:
  "mm_crcok (decode_crc modesInitConfig mm0 frame_klm)"
  "mm_errorbit (decode_crc modesInitConfig mm0 frame_klm) = - 1"
proof -
  have t: "take 14 frame_klm = frame_klm" by (simp add: frame_klm_def)
  have ty: "drop_bit 3 (byte_at frame_klm 0) = 17"
    by (simp add: frame_klm_def byte_at_def drop_bit_eq_div)
  show "mm_crcok (decode_crc modesInitConfig mm0 frame_klm)"
    "mm_errorbit (decode_crc modesInitConfig mm0 frame_klm) = - 1"
    using frame_klm_checksum
    by (simp_all add: decode_crc_def Let_def MODES_LONG_MSG_BYTES_def t ty modesMessageLenByType_def
        MODES_LONG_MSG_BITS_def)
qed

lemma frame_klm_decoded:
  "mm_msgtype (fst (decodeModesMessage modesInitConfig now cache mm0 frame_klm)) = 17"
  "mm_crcok (fst (decodeModesMessage modesInitConfig now cache mm0 frame_klm))"
  "mm_errorbit (fst (decodeModesMessage modesInitConfig now cache mm0 frame_klm)) = - 1"
proof -
  show ty: "mm_msgtype (fst (decodeModesMessage modesInitConfig now cache mm0 frame_klm)) = 17"
    by (simp add: decodeModesMessage_type frame_klm_def byte_at_def drop_bit_eq_div)
  show "mm_errorbit (fst (decodeModesMessage modesInitConfig now cache mm0 frame_klm)) = - 1"
    by (simp add: decodeModesMessage_errorbit frame_klm_decode_crc)
  have "mm_msgtype (decode_crc modesInitConfig mm0 frame_klm) = 17"
    by (simp add: decode_crc_type frame_klm_def byte_at_def drop_bit_eq_div)
  then show "mm_crcok (fst (decodeModesMessage modesInitConfig now cache mm0 frame_klm))"
    by (simp add: decodeModesMessage_def Let_def split_def decode_address_cases frame_klm_decode_crc)
qed

lemma frame_klm_address:
  "(push_bit 16 (ucast (frame_klm ! 1)) OR push_bit 8 (ucast (frame_klm ! 2)) OR ucast (frame_klm ! 3) :: u32) = 0x4840D6"
  by (simp add: frame_klm_def)

theorem whitelist_insertion_iff_witness:
  "(mm_msgtype (fst (decodeModesMessage modesInitConfig 1000 icao_cache_init mm_zero frame_klm)) = 17 \<and>
    mm_crcok (fst (decodeModesMessage modesInitConfig 1000 icao_cache_init mm_zero frame_klm)) \<and>
    mm_errorbit (fst (decodeModesMessage modesInitConfig 1000 icao_cache_init mm_zero frame_klm)) = - 1 \<and>
    snd (decodeModesMessage modesInitConfig 1000 icao_cache_init mm_zero frame_klm)
      (unat (ICAOCacheHashAddress 0x4840D6) * 2) = 0x4840D6 \<and>
    snd (decodeModesMessage modesInitConfig 1000 icao_cache_init mm_zero frame_klm)
      (unat (ICAOCacheHashAddress 0x4840D6) * 2 + 1) = 1000 \<and>
    snd (decodeModesMessage modesInitConfig 1000 icao_cache_init mm_zero frame_klm) 0 = 0) \<and>
   mm_errorbit (fst (decodeModesMessage modesInitConfig 1000 icao_cache_init mm_zero frame_klm_bit37)) \<noteq> - 1 \<and>
   snd (decodeModesMessage modesInitConfig 1000 icao_cache_init mm_zero frame_klm_bit37) = icao_cache_init"
proof -
  note d = frame_klm_decoded [of 1000 icao_cache_init mm_zero]
  have h: "unat (ICAOCacheHashAddress 0x4840D6) = 518"
    by (simp add: ICAOCacheHashAddress_def MODES_ICAO_CACHE_LEN_def)
  have c: "(mm_msgtype (fst (decodeModesMessage modesInitConfig 1000 icao_cache_init mm_zero frame_klm)) = 11 \<or>
            mm_msgtype (fst (decodeModesMessage modesInitConfig 1000 icao_cache_init mm_zero frame_klm)) = 17) \<and>
           mm_crcok (fst (decodeModesMessage modesInitConfig 1000 icao_cache_init mm_zero frame_klm)) \<and>
           mm_errorbit (fst (decodeModesMessage modesInitConfig 1000 icao_cache_init mm_zero frame_klm)) = - 1"
    using d by simp
  have ins:
    "snd (decodeModesMessage modesInitConfig 1000 icao_cache_init mm_zero frame_klm) (518 * 2) = 0x4840D6 \<and>
     snd (decodeModesMessage modesInitConfig 1000 icao_cache_init mm_zero frame_klm) (518 * 2 + 1) = word_of_int 1000 \<and>
     (\<forall>i. i \<noteq> 518 * 2 \<and> i \<noteq> 518 * 2 + 1 \<longrightarrow>
        snd (decodeModesMessage modesInitConfig 1000 icao_cache_init mm_zero frame_klm) i = icao_cache_init i)"
    using whitelist_insertion_iff [of modesInitConfig 1000 icao_cache_init mm_zero frame_klm,
        THEN conjunct2, THEN conjunct2, rule_format, OF c]
    unfolding Let_def frame_klm_address h by (rule conjunct2)
  have rep:
    "snd (decodeModesMessage modesInitConfig 1000 icao_cache_init mm_zero frame_klm_bit37) = icao_cache_init"
    using whitelist_insertion_iff [of modesInitConfig 1000 icao_cache_init mm_zero frame_klm_bit37,
        THEN conjunct2, THEN conjunct1, rule_format]
    by (simp add: decodeModesMessage_errorbit frame_klm_bit37_errorbit)
  have zero: "snd (decodeModesMessage modesInitConfig 1000 icao_cache_init mm_zero frame_klm) 0 = 0"
    using ins by (simp add: icao_cache_init_def)
  show ?thesis
    unfolding h using d ins rep zero
    by (simp add: decodeModesMessage_errorbit frame_klm_bit37_errorbit)
qed

section \<open>The squawk decoder\<close>

lemma enum_byte2:
  "\<forall>m \<in> set [0..255].
     squawk_c m 0 \<in> set [0..7] \<and> squawk_a m 0 \<in> set [0..3] \<and>
     fst (squawk_encode (squawk_a m 0) 0 (squawk_c m 0) 0) = m AND 0x1F \<and>
     squawk_c (m AND 0x1F) 0 = squawk_c m 0 \<and> squawk_a (m AND 0x1F) 0 = squawk_a m 0"
  by code_simp

lemma enum_byte3:
  "\<forall>m \<in> set [0..255].
     squawk_b 0 m \<in> set [0..7] \<and> squawk_d 0 m \<in> set [0..7] \<and> squawk_a 0 m \<in> set [0, 4] \<and>
     snd (squawk_encode (squawk_a 0 m) (squawk_b 0 m) 0 (squawk_d 0 m)) = m AND 0xBF \<and>
     squawk_b 0 (m AND 0xBF) = squawk_b 0 m \<and> squawk_d 0 (m AND 0xBF) = squawk_d 0 m \<and>
     squawk_a 0 (m AND 0xBF) = squawk_a 0 m"
  by code_simp

lemma enum_a_parts:
  "\<forall>h \<in> set [0, 4]. \<forall>l \<in> set [0..3].
     h OR l = h + l \<and> (h + l) div 2 mod 2 = l div 2 mod 2 \<and> (h + l) mod 2 = l mod 2 \<and>
     (h + l) div 4 = h div 4"
  by code_simp

lemma enum_encode2:
  "\<forall>a \<in> set [0..7]. \<forall>c \<in> set [0..7].
     fst (squawk_encode a 0 c 0) \<in> set [0..255] \<and>
     squawk_c (fst (squawk_encode a 0 c 0)) 0 = c \<and>
     squawk_a (fst (squawk_encode a 0 c 0)) 0 = a mod 4"
  by code_simp

lemma enum_encode3:
  "\<forall>a \<in> set [0..7]. \<forall>b \<in> set [0..7]. \<forall>d \<in> set [0..7].
     snd (squawk_encode a b 0 d) \<in> set [0..255] \<and>
     squawk_b 0 (snd (squawk_encode a b 0 d)) = b \<and>
     squawk_d 0 (snd (squawk_encode a b 0 d)) = d \<and>
     squawk_a 0 (snd (squawk_encode a b 0 d)) OR a mod 4 = a"
  by code_simp

lemma squawk_split:
  "squawk_a m2 m3 = squawk_a 0 m3 OR squawk_a m2 0"
  "squawk_b m2 m3 = squawk_b 0 m3"
  "squawk_c m2 m3 = squawk_c m2 0"
  "squawk_d m2 m3 = squawk_d 0 m3"
  by (simp_all add: squawk_a_def squawk_b_def squawk_c_def squawk_d_def ac_simps)

lemma uint_byte_range: "uint (b :: byte) \<in> set [0..255]"
  using uint_lt2p [of b] by simp

lemma squawk_encode_split:
  "fst (squawk_encode a b c d) = fst (squawk_encode a 0 c 0)"
  "snd (squawk_encode a b c d) = snd (squawk_encode a b 0 d)"
  by (simp_all add: squawk_encode_def)

text \<open>The digits that the decoder gathers, and the bytes recovered from them.\<close>

lemma decode_identity_digits:
  fixes b2 b3 :: byte
  defines "a \<equiv> squawk_a (uint b2) (uint b3)" and "b \<equiv> squawk_b (uint b2) (uint b3)"
    and "c \<equiv> squawk_c (uint b2) (uint b3)" and "d \<equiv> squawk_d (uint b2) (uint b3)"
  shows "decode_identity b2 b3 = a * 1000 + b * 100 + c * 10 + d"
    and "a \<in> {0..7}" "b \<in> {0..7}" "c \<in> {0..7}" "d \<in> {0..7}"
    and "squawk_encode a b c d = (uint b2 AND 0x1F, uint b3 AND 0xBF)"
proof -
  let ?m2 = "uint b2" and ?m3 = "uint b3"
  note e2 = enum_byte2 [rule_format, OF uint_byte_range [of b2]]
  note e3 = enum_byte3 [rule_format, OF uint_byte_range [of b3]]
  note ea = enum_a_parts [rule_format, of "squawk_a 0 ?m3" "squawk_a ?m2 0"]
  have ah: "squawk_a 0 ?m3 \<in> set [0, 4]" and al: "squawk_a ?m2 0 \<in> set [0..3]"
    using e2 e3 by blast+
  note ea' = ea [OF ah al]
  note sp = squawk_split [of "uint b2" "uint b3"]
  have a: "a = squawk_a 0 ?m3 + squawk_a ?m2 0"
    using ea' by (simp add: a_def sp(1))
  show "decode_identity b2 b3 = a * 1000 + b * 100 + c * 10 + d"
    by (simp add: decode_identity_def Let_def a_def b_def c_def d_def)
  show "a \<in> {0..7}" using ah al unfolding a by auto
  show "b \<in> {0..7}" using e3 by (simp add: b_def sp(2))
  show "c \<in> {0..7}" using e2 by (simp add: c_def sp(3))
  show "d \<in> {0..7}" using e3 by (simp add: d_def sp(4))
  have "fst (squawk_encode a b c d) = fst (squawk_encode (squawk_a ?m2 0) 0 c 0)"
    using ea' by (simp add: squawk_encode_def a)
  moreover have "snd (squawk_encode a b c d) = snd (squawk_encode (squawk_a 0 ?m3) b 0 d)"
    using ea' by (simp add: squawk_encode_def a)
  ultimately show "squawk_encode a b c d = (uint b2 AND 0x1F, uint b3 AND 0xBF)"
    using e2 e3 by (simp add: prod_eq_iff b_def c_def d_def sp(2,3,4))
qed


lemma decode_identity_masked:
  "decode_identity (b2 AND 0x1F) (b3 AND 0xBF) = decode_identity b2 b3"
proof -
  note e2 = enum_byte2 [rule_format, OF uint_byte_range [of b2]]
  note e3 = enum_byte3 [rule_format, OF uint_byte_range [of b3]]
  note sp = squawk_split [of "uint b2" "uint b3"]
  note sp' = squawk_split [of "uint b2 AND 0x1F" "uint b3 AND 0xBF"]
  have "squawk_a (uint b2 AND 0x1F) (uint b3 AND 0xBF) = squawk_a (uint b2) (uint b3)"
    "squawk_b (uint b2 AND 0x1F) (uint b3 AND 0xBF) = squawk_b (uint b2) (uint b3)"
    "squawk_c (uint b2 AND 0x1F) (uint b3 AND 0xBF) = squawk_c (uint b2) (uint b3)"
    "squawk_d (uint b2 AND 0x1F) (uint b3 AND 0xBF) = squawk_d (uint b2) (uint b3)"
    using e2 e3 by (simp_all only: sp sp')
  then show ?thesis
    by (simp add: decode_identity_def Let_def uint_and)
qed

lemma digits_unique:
  fixes a b c d a' b' c' d' :: int
  assumes "a \<in> {0..7}" "b \<in> {0..7}" "c \<in> {0..7}" "d \<in> {0..7}"
    and "a' \<in> {0..7}" "b' \<in> {0..7}" "c' \<in> {0..7}" "d' \<in> {0..7}"
    and "a * 1000 + b * 100 + c * 10 + d = a' * 1000 + b' * 100 + c' * 10 + d'"
  shows "a = a' \<and> b = b' \<and> c = c' \<and> d = d'"
proof -
  have r: "0 \<le> a" "a \<le> 7" "0 \<le> b" "b \<le> 7" "0 \<le> c" "c \<le> 7" "0 \<le> d" "d \<le> 7"
    "0 \<le> a'" "a' \<le> 7" "0 \<le> b'" "b' \<le> 7" "0 \<le> c'" "c' \<le> 7" "0 \<le> d'" "d' \<le> 7"
    using assms(1-8) by simp_all
  have a: "a = a'" using r assms(9) by arith
  have b: "b = b'" using r assms(9) a by arith
  have c: "c = c'" using r assms(9) a b by arith
  have d: "d = d'" using assms(9) a b c by arith
  show ?thesis using a b c d by simp
qed

lemma decode_identity_inj:
  assumes "decode_identity b2 b3 = decode_identity b2' b3'"
  shows "b2 AND 0x1F = b2' AND 0x1F \<and> b3 AND 0xBF = b3' AND 0xBF"
proof -
  note x = decode_identity_digits [of b2 b3]
  note y = decode_identity_digits [of b2' b3']
  have "squawk_a (uint b2) (uint b3) = squawk_a (uint b2') (uint b3') \<and>
        squawk_b (uint b2) (uint b3) = squawk_b (uint b2') (uint b3') \<and>
        squawk_c (uint b2) (uint b3) = squawk_c (uint b2') (uint b3') \<and>
        squawk_d (uint b2) (uint b3) = squawk_d (uint b2') (uint b3')"
    using assms unfolding x(1) y(1)
    by (intro digits_unique x(2-5) y(2-5))
  then have "(uint b2 AND 0x1F, uint b3 AND 0xBF) = (uint b2' AND 0x1F, uint b3' AND 0xBF)"
    using x(6) y(6) by simp
  then have "uint (b2 AND 0x1F) = uint (b2' AND 0x1F)" "uint (b3 AND 0xBF) = uint (b3' AND 0xBF)"
    by (simp_all add: uint_and)
  then show ?thesis by (simp only: word_uint_eq_iff)
qed

lemma decode_identity_onto:
  assumes "a \<in> {0..7}" "b \<in> {0..7}" "c \<in> {0..7}" "d \<in> {0..7}"
  shows "\<exists>x2 x3. decode_identity x2 x3 = a * 1000 + b * 100 + c * 10 + d"
proof -
  let ?e2 = "fst (squawk_encode a b c d)" and ?e3 = "snd (squawk_encode a b c d)"
  have s: "a \<in> set [0..7]" "b \<in> set [0..7]" "c \<in> set [0..7]" "d \<in> set [0..7]"
    using assms by simp_all
  note f2 = enum_encode2 [rule_format, OF s(1) s(3), folded squawk_encode_split(1) [of a b c d]]
  note f3 = enum_encode3 [rule_format, OF s(1) s(2) s(4), folded squawk_encode_split(2) [of a b c d]]
  have u2: "uint (word_of_int ?e2 :: byte) = ?e2" and u3: "uint (word_of_int ?e3 :: byte) = ?e3"
    using f2 f3 by (simp_all add: uint_word_of_int)
  note sp = squawk_split [of ?e2 ?e3]
  have "decode_identity (word_of_int ?e2) (word_of_int ?e3) = a * 1000 + b * 100 + c * 10 + d"
    unfolding decode_identity_def Let_def u2 u3 sp
    using f2 f3 by simp
  then show ?thesis by blast
qed

text \<open>
  C6 (amended).  The squawk decoder does not read bit X (mask \<open>0x40\<close> of byte 3).  On the
  other twelve bits of the field (the low five bits of byte 2 and byte 3 without X) it is
  one-to-one: two inputs give the same value exactly when they agree on those twelve bits;
  and it reaches every value \<open>a * 1000 + b * 100 + c * 10 + d\<close> with octal digits
  \<open>a\<close>, \<open>b\<close>, \<open>c\<close>, \<open>d\<close>.
\<close>

theorem squawk_decoder_bijection_on_12_bits:
  "(decode_identity b2 b3 = decode_identity b2' b3' \<longleftrightarrow>
      b2 AND 0x1F = b2' AND 0x1F \<and> b3 AND 0xBF = b3' AND 0xBF) \<and>
   (\<forall>a\<in>{0..7}. \<forall>b\<in>{0..7}. \<forall>c\<in>{0..7}. \<forall>d\<in>{0..7}.
      \<exists>x2 x3. decode_identity x2 x3 = a * 1000 + b * 100 + c * 10 + d)"
proof -
  have "decode_identity b2 b3 = decode_identity b2' b3' \<longleftrightarrow>
      b2 AND 0x1F = b2' AND 0x1F \<and> b3 AND 0xBF = b3' AND 0xBF"
  proof
    assume "decode_identity b2 b3 = decode_identity b2' b3'"
    then show "b2 AND 0x1F = b2' AND 0x1F \<and> b3 AND 0xBF = b3' AND 0xBF"
      by (rule decode_identity_inj)
  next
    assume "b2 AND 0x1F = b2' AND 0x1F \<and> b3 AND 0xBF = b3' AND 0xBF"
    then show "decode_identity b2 b3 = decode_identity b2' b3'"
      using decode_identity_masked [of b2 b3] decode_identity_masked [of b2' b3'] by simp
  qed
  then show ?thesis
    using decode_identity_onto by blast
qed

text \<open>
  As a function of all thirteen bits the decoder is not one-to-one: the inputs with and
  without bit X give the same value.
\<close>

theorem squawk_decoder_ignores_x_bit:
  "decode_identity 0 0x40 = decode_identity 0 0 \<and> (0x40 :: byte) \<noteq> 0"
  by (simp add: decode_identity_def squawk_a_def squawk_b_def squawk_c_def squawk_d_def)

theorem squawk_decoder_bijection_on_12_bits_witness:
  "(7::int) \<in> {0..7} \<and> (5::int) \<in> {0..7} \<and> (0::int) \<in> {0..7} \<and>
   (\<exists>x2 x3. decode_identity x2 x3 = 7 * 1000 + 5 * 100 + 0 * 10 + 0)"
  using squawk_decoder_bijection_on_12_bits [of 0 0 0 0, THEN conjunct2, rule_format, of 7 5 0 0]
  by simp

section \<open>Ground speed\<close>

lemma decode_fields_msg [simp]: "mm_msg (decode_fields mm) = mm_msg mm"
  by (simp add: decode_fields_def Let_def)

lemma bruteForceAP_msg [simp]:
  "mm_msg (snd (bruteForceAP now cache m mm)) = mm_msg mm"
  "mm_metype (snd (bruteForceAP now cache m mm)) = mm_metype mm"
  "mm_mesub (snd (bruteForceAP now cache m mm)) = mm_mesub mm"
  by (simp_all add: bruteForceAP_def Let_def)

lemma decode_address_msg [simp]:
  "mm_msg (fst (decode_address now cache mm)) = mm_msg mm"
  "mm_metype (fst (decode_address now cache mm)) = mm_metype mm"
  "mm_mesub (fst (decode_address now cache mm)) = mm_mesub mm"
  by (simp_all add: decode_address_def split_def Let_def)

lemma decode_altitude_msg [simp]:
  "mm_msg (decode_altitude mm) = mm_msg mm"
  "mm_metype (decode_altitude mm) = mm_metype mm"
  "mm_mesub (decode_altitude mm) = mm_mesub mm"
  by (simp_all add: decode_altitude_def split_def Let_def)

lemma decode_velocity_msg [simp]:
  "mm_msg (decode_velocity mm) = mm_msg mm"
  "mm_metype (decode_velocity mm) = mm_metype mm"
  "mm_mesub (decode_velocity mm) = mm_mesub mm"
  by (simp_all add: decode_velocity_def Let_def)

lemma decode_extended_squitter_msg [simp]:
  "mm_msg (decode_extended_squitter mm) = mm_msg mm"
  "mm_metype (decode_extended_squitter mm) = mm_metype mm"
  "mm_mesub (decode_extended_squitter mm) = mm_mesub mm"
  by (simp_all add: decode_extended_squitter_def split_def Let_def)

lemma decode_velocity_velocity:
  "mm_velocity (decode_velocity mm) =
     c_trunc (sqrt (of_int (mm_ns_velocity (decode_velocity mm) * mm_ns_velocity (decode_velocity mm) +
                            mm_ew_velocity (decode_velocity mm) * mm_ew_velocity (decode_velocity mm))))"
  by (simp add: decode_velocity_def Let_def)

lemma decode_velocity_components:
  "mm_ew_velocity (decode_velocity mm) = push_bit 8 (byte_at (mm_msg mm) 5 AND 3) OR byte_at (mm_msg mm) 6"
  "mm_ns_velocity (decode_velocity mm) =
     push_bit 3 (byte_at (mm_msg mm) 7 AND 0x7f) OR drop_bit 5 (byte_at (mm_msg mm) 8 AND 0xe0)"
  by (simp_all add: decode_velocity_def Let_def)

text \<open>What the decoder returns for an airborne velocity message of subtype 1 or 2.\<close>

lemma decodeModesMessage_velocity:
  assumes "mm_msgtype (fst (decodeModesMessage cfg now cache mm0 m)) = 17"
    and "mm_metype (fst (decodeModesMessage cfg now cache mm0 m)) = 19"
    and "mm_mesub (fst (decodeModesMessage cfg now cache mm0 m)) = 1 \<or>
         mm_mesub (fst (decodeModesMessage cfg now cache mm0 m)) = 2"
  shows "\<exists>mm. fst (decodeModesMessage cfg now cache mm0 m) = (decode_velocity mm)\<lparr>mm_phase_corrected := 0\<rparr> \<and>
              mm_msg mm = mm_msg (decode_crc cfg mm0 m)"
proof -
  let ?x = "decode_altitude (fst (decode_address now cache (decode_fields (decode_crc cfg mm0 m))))"
  have r: "fst (decodeModesMessage cfg now cache mm0 m) =
           (decode_extended_squitter ?x)\<lparr>mm_phase_corrected := 0\<rparr>"
    by (simp add: decodeModesMessage_def Let_def split_def)
  have "mm_msgtype ?x = 17" "mm_metype ?x = 19" "mm_mesub ?x = 1 \<or> mm_mesub ?x = 2"
    using assms unfolding r by simp_all
  then have "decode_extended_squitter ?x = decode_velocity ?x"
    by (auto simp: decode_extended_squitter_def Let_def)
  then show ?thesis using r by auto
qed

lemma sqrt_floor:
  assumes "0 \<le> n"
  shows "0 \<le> c_trunc (sqrt (of_int n))"
    and "c_trunc (sqrt (of_int n)) * c_trunc (sqrt (of_int n)) \<le> n"
    and "n < (c_trunc (sqrt (of_int n)) + 1) * (c_trunc (sqrt (of_int n)) + 1)"
    and "c_trunc (sqrt (of_int n)) = \<lfloor>sqrt (of_int n)\<rfloor>"
proof -
  let ?s = "sqrt (of_int n)" and ?v = "\<lfloor>sqrt (of_int n)\<rfloor>"
  have s0: "0 \<le> ?s" using assms by simp
  then show t: "c_trunc ?s = ?v" by (simp add: c_trunc_def)
  have v0: "0 \<le> ?v" using s0 by simp
  then show "0 \<le> c_trunc ?s" using t by simp
  have "of_int ?v \<le> ?s" by simp
  then have "(of_int ?v)\<^sup>2 \<le> ?s\<^sup>2"
    using v0 by (intro power_mono) simp_all
  then have "of_int (?v * ?v) \<le> (of_int n :: real)"
    using assms by (simp add: power2_eq_square)
  then show "c_trunc ?s * c_trunc ?s \<le> n" unfolding t by (simp only: of_int_le_iff)
  have "?s < of_int (?v + 1)" by linarith
  then have "?s\<^sup>2 < (of_int (?v + 1))\<^sup>2"
    using s0 by (intro power_strict_mono) simp_all
  then have "(of_int n :: real) < of_int ((?v + 1) * (?v + 1))"
    using assms by (simp add: power2_eq_square)
  then show "n < (c_trunc ?s + 1) * (c_trunc ?s + 1)" unfolding t by (simp only: of_int_less_iff)
qed


lemma decode_crc_valid_msg:
  assumes "trailing_crc (take 14 m) (modesMessageLenByType (drop_bit 3 (byte_at (take 14 m) 0))) =
           modesChecksum (take 14 m) (modesMessageLenByType (drop_bit 3 (byte_at (take 14 m) 0)))"
  shows "mm_msg (decode_crc cfg mm0 m) = take 14 m"
  using assms by (simp add: decode_crc_def Let_def MODES_LONG_MSG_BYTES_def)

lemma decodeModesMessage_me:
  "mm_metype (fst (decodeModesMessage cfg now cache mm0 m)) =
     drop_bit 3 (byte_at (mm_msg (decode_crc cfg mm0 m)) 4)"
  "mm_mesub (fst (decodeModesMessage cfg now cache mm0 m)) =
     byte_at (mm_msg (decode_crc cfg mm0 m)) 4 AND 7"
  by (simp_all add: decodeModesMessage_def Let_def split_def) (simp_all add: decode_fields_def Let_def)

text \<open>
  C7 (amended).  For a DF17 airborne velocity message of subtype 1 or 2 the ground speed
  is the integer part of the Euclidean norm of the two components: the largest integer
  whose square does not exceed \<open>ew\<^sup>2 + ns\<^sup>2\<close>.
\<close>

theorem ground_speed_is_truncated_norm:
  assumes "mm_msgtype (fst (decodeModesMessage cfg now cache mm0 m)) = 17"
    and "mm_metype (fst (decodeModesMessage cfg now cache mm0 m)) = 19"
    and "mm_mesub (fst (decodeModesMessage cfg now cache mm0 m)) = 1 \<or>
         mm_mesub (fst (decodeModesMessage cfg now cache mm0 m)) = 2"
  shows "mm_velocity (fst (decodeModesMessage cfg now cache mm0 m)) =
           \<lfloor>sqrt (of_int ((mm_ew_velocity (fst (decodeModesMessage cfg now cache mm0 m)))\<^sup>2 +
                           (mm_ns_velocity (fst (decodeModesMessage cfg now cache mm0 m)))\<^sup>2))\<rfloor> \<and>
         (mm_velocity (fst (decodeModesMessage cfg now cache mm0 m)))\<^sup>2 \<le>
           (mm_ew_velocity (fst (decodeModesMessage cfg now cache mm0 m)))\<^sup>2 +
           (mm_ns_velocity (fst (decodeModesMessage cfg now cache mm0 m)))\<^sup>2 \<and>
         (mm_ew_velocity (fst (decodeModesMessage cfg now cache mm0 m)))\<^sup>2 +
         (mm_ns_velocity (fst (decodeModesMessage cfg now cache mm0 m)))\<^sup>2 <
           (mm_velocity (fst (decodeModesMessage cfg now cache mm0 m)) + 1)\<^sup>2"
proof -
  from decodeModesMessage_velocity [OF assms] obtain mm where
    mm: "fst (decodeModesMessage cfg now cache mm0 m) = (decode_velocity mm)\<lparr>mm_phase_corrected := 0\<rparr>"
    by blast
  let ?ew = "mm_ew_velocity (decode_velocity mm)" and ?ns = "mm_ns_velocity (decode_velocity mm)"
  have n: "0 \<le> ?ns * ?ns + ?ew * ?ew" by simp
  have v: "mm_velocity (decode_velocity mm) = c_trunc (sqrt (of_int (?ns * ?ns + ?ew * ?ew)))"
    by (rule decode_velocity_velocity)
  show ?thesis
    unfolding mm using sqrt_floor [OF n]
    by (simp add: v power2_eq_square add.commute)
qed

lemma frame_velocity_checksum:
  "trailing_crc frame_velocity 112 = modesChecksum frame_velocity 112"
  by code_simp

lemma frame_velocity_msg:
  "mm_msg (decode_crc cfg mm0 frame_velocity) = frame_velocity"
proof -
  have t: "take 14 frame_velocity = frame_velocity" by (simp add: frame_velocity_def)
  have "drop_bit 3 (byte_at frame_velocity 0) = 17"
    by (simp add: frame_velocity_def byte_at_def drop_bit_eq_div)
  then show ?thesis
    using decode_crc_valid_msg [of frame_velocity cfg mm0] frame_velocity_checksum
    by (simp add: t modesMessageLenByType_def MODES_LONG_MSG_BITS_def)
qed

lemma decoded_velocity_frame_kind:
  "mm_msgtype decoded_velocity_frame = 17"
  "mm_metype decoded_velocity_frame = 19"
  "mm_mesub decoded_velocity_frame = 1"
  unfolding decoded_velocity_frame_def decodeModesMessage_type decodeModesMessage_me frame_velocity_msg
  by (simp_all add: frame_velocity_def byte_at_def drop_bit_eq_div)

lemma decoded_velocity_frame_components:
  "mm_ew_velocity decoded_velocity_frame = 2"
  "mm_ns_velocity decoded_velocity_frame = 2"
proof -
  from decodeModesMessage_velocity [of modesInitConfig 1000 icao_cache_init mm_zero frame_velocity]
    decoded_velocity_frame_kind
  obtain mm where mm: "decoded_velocity_frame = (decode_velocity mm)\<lparr>mm_phase_corrected := 0\<rparr>"
    "mm_msg mm = frame_velocity"
    unfolding decoded_velocity_frame_def frame_velocity_msg by auto
  show "mm_ew_velocity decoded_velocity_frame = 2" "mm_ns_velocity decoded_velocity_frame = 2"
    unfolding mm(1) by (simp_all add: decode_velocity_components mm(2) frame_velocity_def byte_at_def)
qed

lemma round_sqrt_8: "round (sqrt 8) = 3"
proof -
  have "(5 / 2)\<^sup>2 \<le> (8::real)" by (simp add: power2_eq_square)
  then have "5 / 2 \<le> sqrt 8" by (rule real_le_rsqrt)
  moreover have "sqrt 8 < 7 / 2" by (rule real_less_lsqrt) (simp_all add: power2_eq_square)
  ultimately show ?thesis unfolding round_def by (simp add: floor_eq_iff)
qed

text \<open>
  With both components equal to 2 the norm is \<open>\<surd>8\<close>, which rounds to 3; the decoder
  stores 2.
\<close>

lemma decoded_velocity_frame_speed:
  "(mm_velocity decoded_velocity_frame)\<^sup>2 \<le> 2\<^sup>2 + 2\<^sup>2 \<Longrightarrow>
   2\<^sup>2 + 2\<^sup>2 < (mm_velocity decoded_velocity_frame + 1)\<^sup>2 \<Longrightarrow>
   mm_velocity decoded_velocity_frame = 2"
proof -
  let ?v = "mm_velocity decoded_velocity_frame"
  assume "?v\<^sup>2 \<le> 2\<^sup>2 + 2\<^sup>2" and "2\<^sup>2 + 2\<^sup>2 < (?v + 1)\<^sup>2"
  then have le: "?v\<^sup>2 \<le> 8" and gt: "8 < (?v + 1)\<^sup>2" by simp_all
  have "\<bar>?v\<bar> \<le> 2"
  proof (rule ccontr)
    assume "\<not> \<bar>?v\<bar> \<le> 2"
    then have "3 \<le> \<bar>?v\<bar>" by simp
    then have "3\<^sup>2 \<le> \<bar>?v\<bar>\<^sup>2" by (intro power_mono) simp_all
    then show False using le by simp
  qed
  moreover have "1 < \<bar>?v + 1\<bar>"
  proof (rule ccontr)
    assume "\<not> 1 < \<bar>?v + 1\<bar>"
    then have "\<bar>?v + 1\<bar> \<le> 1" by simp
    then have "\<bar>?v + 1\<bar>\<^sup>2 \<le> 1\<^sup>2" by (intro power_mono) simp_all
    then show False using gt by simp
  qed
  ultimately consider "?v = 1" | "?v = 2" | "?v = - 2" by linarith
  then show ?thesis using gt by cases simp_all
qed

theorem ground_speed_not_rounded:
  "mm_msgtype decoded_velocity_frame = 17 \<and> mm_metype decoded_velocity_frame = 19 \<and>
   mm_mesub decoded_velocity_frame = 1 \<and>
   mm_velocity decoded_velocity_frame \<noteq>
     round (sqrt (of_int ((mm_ew_velocity decoded_velocity_frame)\<^sup>2 +
                          (mm_ns_velocity decoded_velocity_frame)\<^sup>2)))"
proof -
  note k = decoded_velocity_frame_kind [unfolded decoded_velocity_frame_def]
  note t = ground_speed_is_truncated_norm [OF k(1) k(2) disjI1 [OF k(3)],
      folded decoded_velocity_frame_def, unfolded decoded_velocity_frame_components]
  have "mm_velocity decoded_velocity_frame = 2"
    by (rule decoded_velocity_frame_speed
        [OF t [THEN conjunct2, THEN conjunct1] t [THEN conjunct2, THEN conjunct2]])
  then show ?thesis
    using decoded_velocity_frame_kind round_sqrt_8
    by (simp add: decoded_velocity_frame_components)
qed

theorem ground_speed_is_truncated_norm_witness:
  "mm_msgtype decoded_velocity_frame = 17 \<and> mm_metype decoded_velocity_frame = 19 \<and>
   (mm_mesub decoded_velocity_frame = 1 \<or> mm_mesub decoded_velocity_frame = 2) \<and>
   mm_velocity decoded_velocity_frame = \<lfloor>sqrt (of_int (2\<^sup>2 + 2\<^sup>2))\<rfloor> \<and>
   mm_velocity decoded_velocity_frame = 2"
proof -
  note k = decoded_velocity_frame_kind [unfolded decoded_velocity_frame_def]
  note t = ground_speed_is_truncated_norm [OF k(1) k(2) disjI1 [OF k(3)],
      folded decoded_velocity_frame_def, unfolded decoded_velocity_frame_components]
  have "mm_velocity decoded_velocity_frame = 2"
    by (rule decoded_velocity_frame_speed
        [OF t [THEN conjunct2, THEN conjunct1] t [THEN conjunct2, THEN conjunct2]])
  moreover have "mm_velocity decoded_velocity_frame = \<lfloor>sqrt (of_int (2\<^sup>2 + 2\<^sup>2))\<rfloor>"
    by (rule t [THEN conjunct1])
  ultimately show ?thesis
    using decoded_velocity_frame_kind by blast
qed

section \<open>The CPR resolver\<close>

lemma pair_j: "\<lfloor>((59 * of_int (93000::int) - 60 * of_int (74158::int)) / 131072) + 0.5 :: real\<rfloor> = 8"
  by (simp add: floor_eq_iff)

lemma pair_rlat0: "cpr_rlat0 aircraft_cpr_pair = 6 * (8 + 93000 / 131072)"
  by (simp add: cpr_rlat0_def aircraft_cpr_pair_def interactiveCreateAircraft_def Let_def
      floor_eq_iff cprModFunction_def c_rem_def)

lemma pair_rlat1: "cpr_rlat1 aircraft_cpr_pair = (360 / 59) * (8 + 74158 / 131072)"
  by (simp add: cpr_rlat1_def aircraft_cpr_pair_def interactiveCreateAircraft_def Let_def
      floor_eq_iff cprModFunction_def c_rem_def)

lemma pair_nl0: "cprNLFunction (cpr_rlat0 aircraft_cpr_pair) = 36"
  unfolding pair_rlat0 by (simp add: cprNLFunction_def cprNL_rows_def)

lemma pair_nl1: "cprNLFunction (cpr_rlat1 aircraft_cpr_pair) = 36"
  unfolding pair_rlat1 by (simp add: cprNLFunction_def cprNL_rows_def)


lemma decodeCPR_branches:
  "decodeCPR a =
     (if cprNLFunction (cpr_rlat0 a) \<noteq> cprNLFunction (cpr_rlat1 a) then a
      else if even_cprtime a > odd_cprtime a then cpr_use_even a else cpr_use_odd a)"
  by (simp add: decodeCPR_def cpr_use_even_def cpr_use_odd_def Let_def)

lemma cpr_use_lat [simp]:
  "ac_lat (cpr_use_even a) = cpr_rlat0 a"
  "ac_lat (cpr_use_odd a) = cpr_rlat1 a"
  by (simp_all add: cpr_use_even_def cpr_use_odd_def cpr_wrap_lon_def Let_def)

lemma cpr_use_keeps [simp]:
  "even_cprlat (cpr_use_even a) = even_cprlat a" "odd_cprlat (cpr_use_even a) = odd_cprlat a"
  "even_cprtime (cpr_use_even a) = even_cprtime a" "odd_cprtime (cpr_use_even a) = odd_cprtime a"
  "even_cprlat (cpr_use_odd a) = even_cprlat a" "odd_cprlat (cpr_use_odd a) = odd_cprlat a"
  "even_cprtime (cpr_use_odd a) = even_cprtime a" "odd_cprtime (cpr_use_odd a) = odd_cprtime a"
  by (simp_all add: cpr_use_even_def cpr_use_odd_def cpr_wrap_lon_def Let_def)

lemma cpr_rlat_cong:
  "even_cprlat a' = even_cprlat a \<Longrightarrow> odd_cprlat a' = odd_cprlat a \<Longrightarrow>
   cpr_rlat0 a' = cpr_rlat0 a \<and> cpr_rlat1 a' = cpr_rlat1 a"
  by (simp add: cpr_rlat0_def cpr_rlat1_def)

text \<open>
  C10.  When the two latitudes fall in the same zone, so that \<^verbatim>\<open>decodeCPR\<close> assigns a
  position, the position comes from the even snapshot if its capture time is strictly
  greater than that of the odd snapshot, and from the odd snapshot otherwise, equal
  capture times included.
\<close>

theorem cpr_basis_is_strictly_newer_even:
  assumes "cprNLFunction (cpr_rlat0 a) = cprNLFunction (cpr_rlat1 a)"
  shows "(odd_cprtime a < even_cprtime a \<longrightarrow>
            decodeCPR a = cpr_use_even a \<and> ac_lat (decodeCPR a) = cpr_rlat0 a) \<and>
         (even_cprtime a \<le> odd_cprtime a \<longrightarrow>
            decodeCPR a = cpr_use_odd a \<and> ac_lat (decodeCPR a) = cpr_rlat1 a)"
  using assms by (simp add: decodeCPR_branches)

lemma pair_rlat_differ: "cpr_rlat1 aircraft_cpr_pair \<noteq> cpr_rlat0 aircraft_cpr_pair"
  unfolding pair_rlat0 pair_rlat1 by simp

lemma pair_later_rlat:
  "cpr_rlat0 (aircraft_cpr_pair\<lparr>even_cprtime := 6000\<rparr>) = cpr_rlat0 aircraft_cpr_pair"
  "cpr_rlat1 (aircraft_cpr_pair\<lparr>even_cprtime := 6000\<rparr>) = cpr_rlat1 aircraft_cpr_pair"
  by (simp_all add: cpr_rlat0_def cpr_rlat1_def)

theorem cpr_basis_is_strictly_newer_even_witness:
  "cprNLFunction (cpr_rlat0 aircraft_cpr_pair) = cprNLFunction (cpr_rlat1 aircraft_cpr_pair) \<and>
   even_cprtime aircraft_cpr_pair \<le> odd_cprtime aircraft_cpr_pair \<and>
   ac_lat (decodeCPR aircraft_cpr_pair) = cpr_rlat1 aircraft_cpr_pair \<and>
   cpr_rlat1 aircraft_cpr_pair \<noteq> cpr_rlat0 aircraft_cpr_pair \<and>
   odd_cprtime (aircraft_cpr_pair\<lparr>even_cprtime := 6000\<rparr>) <
     even_cprtime (aircraft_cpr_pair\<lparr>even_cprtime := 6000\<rparr>) \<and>
   ac_lat (decodeCPR (aircraft_cpr_pair\<lparr>even_cprtime := 6000\<rparr>)) = cpr_rlat0 aircraft_cpr_pair"
proof -
  have nl: "cprNLFunction (cpr_rlat0 aircraft_cpr_pair) = cprNLFunction (cpr_rlat1 aircraft_cpr_pair)"
    by (simp add: pair_nl0 pair_nl1)
  have nl': "cprNLFunction (cpr_rlat0 (aircraft_cpr_pair\<lparr>even_cprtime := 6000\<rparr>)) =
             cprNLFunction (cpr_rlat1 (aircraft_cpr_pair\<lparr>even_cprtime := 6000\<rparr>))"
    by (simp add: pair_later_rlat pair_nl0 pair_nl1)
  have t: "even_cprtime aircraft_cpr_pair = 5000" "odd_cprtime aircraft_cpr_pair = 5000"
    by (simp_all add: aircraft_cpr_pair_def)
  show ?thesis
    using cpr_basis_is_strictly_newer_even [OF nl] cpr_basis_is_strictly_newer_even [OF nl']
      nl pair_rlat_differ
    by (simp add: t pair_later_rlat)
qed

section \<open>Position updates in the tracker\<close>

lemma decodeCPR_keeps [simp]:
  "even_cprlat (decodeCPR a) = even_cprlat a" "odd_cprlat (decodeCPR a) = odd_cprlat a"
  "even_cprtime (decodeCPR a) = even_cprtime a" "odd_cprtime (decodeCPR a) = odd_cprtime a"
  by (simp_all add: decodeCPR_branches)

lemma decodeCPR_rlat [simp]:
  "cpr_rlat0 (decodeCPR a) = cpr_rlat0 a" "cpr_rlat1 (decodeCPR a) = cpr_rlat1 a"
  using cpr_rlat_cong [of "decodeCPR a" a] by simp_all

lemma decodeCPR_zone_mismatch:
  "cprNLFunction (cpr_rlat0 a) \<noteq> cprNLFunction (cpr_rlat1 a) \<Longrightarrow> decodeCPR a = a"
  by (simp add: decodeCPR_branches)

lemma stored_snapshot_fields:
  "ac_lat (stored_snapshot now now_ms mm a0) = ac_lat a0"
  "ac_lon (stored_snapshot now now_ms mm a0) = ac_lon a0"
  "even_cprtime (stored_snapshot now now_ms mm a0) = now_ms \<or>
   odd_cprtime (stored_snapshot now now_ms mm a0) = now_ms"
  by (simp_all add: stored_snapshot_def Let_def)

lemma update_aircraft_position:
  assumes "mm_msgtype mm = 17" "9 \<le> mm_metype mm" "mm_metype mm \<le> 18"
  shows "update_aircraft now now_ms mm a0 =
           (if \<bar>even_cprtime (stored_snapshot now now_ms mm a0) -
                odd_cprtime (stored_snapshot now now_ms mm a0)\<bar> \<le> 10000
            then decodeCPR (stored_snapshot now now_ms mm a0)
            else stored_snapshot now now_ms mm a0)"
  using assms by (simp add: update_aircraft_def stored_snapshot_def Let_def)

lemma update_aircraft_other:
  assumes "\<not> (mm_msgtype mm = 17 \<and> 9 \<le> mm_metype mm \<and> mm_metype mm \<le> 18)"
  shows "ac_lat (update_aircraft now now_ms mm a0) = ac_lat a0 \<and>
         ac_lon (update_aircraft now now_ms mm a0) = ac_lon a0"
  using assms by (auto simp add: update_aircraft_def Let_def)

text \<open>
  C5 (amended).  A message changes the resolved latitude or longitude of an aircraft only
  if it is a DF17 airborne position message, the capture times of the two snapshot slots
  (a slot never written holds 0) differ by at most 10,000 ms once the message is stored,
  and both latitudes fall in the same zone; in every other case both fields keep their
  values.  When the clock reads more than 10,000 ms they also keep their values as long as
  one of the two slots has never been written.
\<close>

theorem cpr_update_gate:
  assumes "a' = update_aircraft now now_ms mm a0"
  shows "(\<not> (mm_msgtype mm = 17 \<and> 9 \<le> mm_metype mm \<and> mm_metype mm \<le> 18 \<and>
             \<bar>even_cprtime a' - odd_cprtime a'\<bar> \<le> 10000 \<and>
             cprNLFunction (cpr_rlat0 a') = cprNLFunction (cpr_rlat1 a')) \<longrightarrow>
          ac_lat a' = ac_lat a0 \<and> ac_lon a' = ac_lon a0) \<and>
         (10000 < now_ms \<and> (odd_cprtime a' = 0 \<or> even_cprtime a' = 0) \<longrightarrow>
          ac_lat a' = ac_lat a0 \<and> ac_lon a' = ac_lon a0)"
proof (cases "mm_msgtype mm = 17 \<and> 9 \<le> mm_metype mm \<and> mm_metype mm \<le> 18")
  case False
  then show ?thesis
    using update_aircraft_other [of mm now now_ms a0] assms by simp
next
  case True
  define a2 where "a2 = stored_snapshot now now_ms mm a0"
  have a2: "ac_lat a2 = ac_lat a0" "ac_lon a2 = ac_lon a0"
      "even_cprtime a2 = now_ms \<or> odd_cprtime a2 = now_ms"
      "a' = (if \<bar>even_cprtime a2 - odd_cprtime a2\<bar> \<le> 10000 then decodeCPR a2 else a2)"
    using update_aircraft_position [of mm now now_ms a0] stored_snapshot_fields [of now now_ms mm a0]
      assms True unfolding a2_def by simp_all
  show ?thesis
  proof (cases "\<bar>even_cprtime a2 - odd_cprtime a2\<bar> \<le> 10000")
    case False
    then have "a' = a2" using a2(4) by simp
    then show ?thesis using a2(1,2) False by simp
  next
    case near: True
    then have d: "a' = decodeCPR a2" using a2(4) by simp
    have times: "even_cprtime a' = even_cprtime a2" "odd_cprtime a' = odd_cprtime a2"
      unfolding d by simp_all
    have one: "cprNLFunction (cpr_rlat0 a') \<noteq> cprNLFunction (cpr_rlat1 a') \<longrightarrow>
               ac_lat a' = ac_lat a0 \<and> ac_lon a' = ac_lon a0"
      unfolding d using a2(1,2) by (simp add: decodeCPR_zone_mismatch)
    have two: "10000 < now_ms \<longrightarrow> odd_cprtime a' \<noteq> 0 \<and> even_cprtime a' \<noteq> 0"
      unfolding times using near a2(3) by auto
    show ?thesis using True near one two times by auto
  qed
qed


lemma even_position_message_kind:
  "mm_msgtype even_position_message = 17" "mm_metype even_position_message = 11"
  "mm_fflag even_position_message = 0" "mm_crcok even_position_message"
  "mm_raw_latitude even_position_message = 93000" "mm_raw_longitude even_position_message = 51372"
  by (simp_all add: even_position_message_def mm_zero_def)

lemma first_even_snapshot:
  "stored_snapshot now now_ms even_position_message (interactiveCreateAircraft now addr) =
     (interactiveCreateAircraft now addr)
       \<lparr>ac_seen := now, ac_messages := 1, ac_altitude := mm_altitude even_position_message,
        even_cprlat := 93000, even_cprlon := 51372, even_cprtime := now_ms\<rparr>"
  by (simp add: stored_snapshot_def Let_def even_position_message_kind interactiveCreateAircraft_def)

lemma aircraft_today_eq:
  "aircraft_today =
     stored_snapshot 1700000000 1700000000000 even_position_message
       (interactiveCreateAircraft 1700000000 (icao_addr even_position_message))"
  unfolding aircraft_today_def
  apply (subst update_aircraft_position)
     apply (simp_all only: first_even_snapshot)
     apply (simp_all add: even_position_message_kind interactiveCreateAircraft_def)
  done

lemma aircraft_at_epoch_eq:
  "aircraft_at_epoch =
     decodeCPR (stored_snapshot 5 5000 even_position_message
       (interactiveCreateAircraft 5 (icao_addr even_position_message)))"
  unfolding aircraft_at_epoch_def
  apply (subst update_aircraft_position)
     apply (simp_all only: first_even_snapshot)
     apply (simp_all add: even_position_message_kind interactiveCreateAircraft_def)
  done

lemma epoch_rlat:
  "cpr_rlat0 (stored_snapshot 5 5000 even_position_message (interactiveCreateAircraft 5 addr)) =
     6 * (42 + 93000 / 131072)"
  "cpr_rlat1 (stored_snapshot 5 5000 even_position_message (interactiveCreateAircraft 5 addr)) =
     (360 / 59) * 42"
  unfolding first_even_snapshot
  by (simp_all add: cpr_rlat0_def cpr_rlat1_def interactiveCreateAircraft_def
      Let_def floor_eq_iff cprModFunction_def c_rem_def)

lemma epoch_nl:
  "cprNLFunction (2099259 / 8192) = 1"
  "cprNLFunction (15120 / 59) = 1"
  by (simp_all add: cprNLFunction_def cprNL_rows_def)

lemma created_position [simp]:
  "ac_lat (interactiveCreateAircraft now addr) = 0" "ac_lon (interactiveCreateAircraft now addr) = 0"
  by (simp_all add: interactiveCreateAircraft_def)

lemma epoch_snapshot_fields:
  "even_cprlon (stored_snapshot 5 5000 even_position_message (interactiveCreateAircraft 5 addr)) = 51372"
  "odd_cprlon (stored_snapshot 5 5000 even_position_message (interactiveCreateAircraft 5 addr)) = 0"
  "odd_cprlat (stored_snapshot 5 5000 even_position_message (interactiveCreateAircraft 5 addr)) = 0"
  "even_cprtime (stored_snapshot 5 5000 even_position_message (interactiveCreateAircraft 5 addr)) = 5000"
  "odd_cprtime (stored_snapshot 5 5000 even_position_message (interactiveCreateAircraft 5 addr)) = 0"
  unfolding first_even_snapshot by (simp_all add: interactiveCreateAircraft_def)

lemma aircraft_at_epoch_position:
  "ac_lat aircraft_at_epoch = 6 * (42 + 93000 / 131072)"
  "ac_lon aircraft_at_epoch = 360 * (51372 / 131072)"
  "odd_cprtime aircraft_at_epoch = 0" "odd_cprlat aircraft_at_epoch = 0"
  "odd_cprlon aircraft_at_epoch = 0"
  unfolding aircraft_at_epoch_eq decodeCPR_branches
  by (simp_all add: epoch_rlat epoch_nl epoch_snapshot_fields cpr_use_even_def Let_def
      cprNFunction_def cprDlonFunction_def cprModFunction_def c_rem_def cpr_wrap_lon_def floor_eq_iff)

text \<open>
  A tracker with no aircraft receives one even position message while the clock reads
  5000 ms.  The odd snapshot has never been received, and the new record already has a
  latitude and a longitude.
\<close>

theorem cpr_resolves_without_odd_snapshot:
  "fst (interactiveReceiveData modesInitConfig 5 5000 even_position_message []) =
     Some aircraft_at_epoch \<and>
   odd_cprtime aircraft_at_epoch = 0 \<and> odd_cprlat aircraft_at_epoch = 0 \<and>
   odd_cprlon aircraft_at_epoch = 0 \<and>
   ac_lat (interactiveCreateAircraft 5 (icao_addr even_position_message)) = 0 \<and>
   ac_lon (interactiveCreateAircraft 5 (icao_addr even_position_message)) = 0 \<and>
   ac_lat aircraft_at_epoch \<noteq> 0 \<and> ac_lon aircraft_at_epoch \<noteq> 0"
  by (simp add: aircraft_at_epoch_position)
     (simp add: interactiveReceiveData_def interactiveFindAircraft_def even_position_message_kind
       aircraft_at_epoch_def Let_def)

theorem cpr_update_gate_witness:
  "aircraft_today =
     update_aircraft 1700000000 1700000000000 even_position_message
       (interactiveCreateAircraft 1700000000 (icao_addr even_position_message)) \<and>
   \<not> \<bar>even_cprtime aircraft_today - odd_cprtime aircraft_today\<bar> \<le> 10000 \<and>
   (10000::int) < 1700000000000 \<and> odd_cprtime aircraft_today = 0 \<and>
   ac_lat aircraft_today = 0 \<and> ac_lon aircraft_today = 0"
proof -
  have f: "even_cprtime aircraft_today = 1700000000000" "odd_cprtime aircraft_today = 0"
    unfolding aircraft_today_eq first_even_snapshot by (simp_all add: interactiveCreateAircraft_def)
  show ?thesis
    using cpr_update_gate [OF aircraft_today_def] f
    by (simp add: aircraft_today_def [symmetric])
qed

section \<open>Overflow of a client buffer\<close>

declare process_messages.simps [simp del]

lemma process_messages_no_separator:
  "strstr (cstring c) sep = None \<Longrightarrow>
   process_messages handler sep c st fullmsg = Some (Some c, st, fullmsg)"
  by (subst process_messages.simps) simp

lemma strstr_absent_char:
  assumes "ch \<notin> set s"
  shows "strstr s [ch] = None"
proof -
  have "take 1 (drop i s) \<noteq> [ch]" for i
  proof
    assume "take 1 (drop i s) = [ch]"
    then have "ch \<in> set (take 1 (drop i s))" by simp
    then have "ch \<in> set s" by (meson in_set_takeD in_set_dropD)
    then show False using assms by simp
  qed
  then show ?thesis by (simp add: strstr_def find_None_iff)
qed

text \<open>
  C8.  When a read brings the live bytes of a client's buffer to 1024 and the buffer then
  holds no separator, \<^verbatim>\<open>modesReadFromClient\<close> sets the buffer length to 0 and goes on
  reading from the same client; if the next read has nothing to deliver, it returns with
  the client in place and its buffer empty.
\<close>

theorem client_overflow_clears_buffer:
  assumes "bs \<noteq> []"
    and "c_buflen c + length bs = MODES_CLIENT_BUF_SIZE"
    and "strstr (cstring (client_after_read c bs)) sep = None"
  shows "modesReadFromClient handler sep c st (ReadData bs # rest) =
           modesReadFromClient handler sep ((client_after_read c bs)\<lparr>c_buflen := 0\<rparr>) st rest \<and>
         modesReadFromClient handler sep c st (ReadData bs # ReadEAGAIN # rest) =
           Some (Some ((client_after_read c bs)\<lparr>c_buflen := 0\<rparr>), st, rest)"
proof -
  have left: "MODES_CLIENT_BUF_SIZE - c_buflen c = length bs" using assms(2) by simp
  have full: "c_buflen (client_after_read c bs) = MODES_CLIENT_BUF_SIZE"
    using assms(2) by (simp add: client_after_read_def)
  have step: "modesReadFromClient handler sep c st (ReadData bs # rest') =
           modesReadFromClient handler sep ((client_after_read c bs)\<lparr>c_buflen := 0\<rparr>) st rest'"
    for rest'
    using assms(1) full process_messages_no_separator [OF assms(3), of handler st False]
    by (simp add: left Let_def client_after_read_def [symmetric])
  show ?thesis
    unfolding step by simp
qed

lemma fresh_client_after_read:
  "cstring (client_after_read fresh_client (replicate 1024 (CHR ''A''))) = replicate 1024 (CHR ''A'')"
  by (simp add: cstring_def client_after_read_def fresh_client_def NUL_def takeWhile_replicate)

theorem client_overflow_clears_buffer_witness:
  "replicate 1024 (CHR ''A'') \<noteq> [] \<and>
   c_buflen fresh_client + length (replicate 1024 (CHR ''A'')) = MODES_CLIENT_BUF_SIZE \<and>
   strstr (cstring (client_after_read fresh_client (replicate 1024 (CHR ''A'')))) raw_input_sep = None \<and>
   modesReadFromClient accept_handler raw_input_sep fresh_client ()
     [ReadData (replicate 1024 (CHR ''A'')), ReadEAGAIN] =
   Some (Some ((client_after_read fresh_client (replicate 1024 (CHR ''A'')))\<lparr>c_buflen := 0\<rparr>), (), [])"
proof -
  have a: "replicate 1024 (CHR ''A'') \<noteq> []" by simp
  have b: "c_buflen fresh_client + length (replicate 1024 (CHR ''A'')) = MODES_CLIENT_BUF_SIZE"
    by (simp add: fresh_client_def MODES_CLIENT_BUF_SIZE_def)
  have c: "strstr (cstring (client_after_read fresh_client (replicate 1024 (CHR ''A'')))) raw_input_sep = None"
    unfolding fresh_client_after_read raw_input_sep_def
    by (rule strstr_absent_char) simp
  show ?thesis
    using client_overflow_clears_buffer [OF a b c, of accept_handler "()" "[]"] a b c
    by blast
qed

section \<open>Malformed hex records\<close>

declare hexToBin_strip_right.simps [simp del] hexToBin_skip_left.simps [simp del]
  hexToBin_digits.simps [simp del]

lemma hexToBin_returns_0: "fst (hexToBin hex m) = 0"
proof -
  have "fst (hexToBin_digits h p l j m') = 0" for h p l j m'
    by (induction h p l j m' rule: hexToBin_digits.induct)
       (subst hexToBin_digits.simps, simp add: Let_def)
  then show ?thesis
    by (simp add: hexToBin_def split_def Let_def)
qed

lemma malformed_strlen: "strlen malformed_line = 18"
  by (simp add: strlen_def malformed_line_def NUL_def)

lemma malformed_strip:
  "hexToBin_strip_right malformed_line 18 = (malformed_line, 18)"
  by (subst hexToBin_strip_right.simps) (simp add: malformed_line_def isspace_def)

lemma malformed_skip:
  "hexToBin_skip_left malformed_line 0 18 = (0, 18)"
  by (subst hexToBin_skip_left.simps) (simp add: malformed_line_def isspace_def)

lemma hexvals:
  "hexDigitVal (char_int CHR ''5'') = 5" "hexDigitVal (char_int CHR ''D'') = 13"
  "hexDigitVal (char_int CHR ''4'') = 4" "hexDigitVal (char_int CHR ''8'') = 8"
  "hexDigitVal (char_int CHR ''0'') = 0" "hexDigitVal (char_int CHR ''6'') = 6"
  "hexDigitVal (char_int CHR ''F'') = 15" "hexDigitVal (char_int CHR ''7'') = 7"
  "hexDigitVal (char_int CHR ''Z'') = - 1"
  by (simp_all add: hexDigitVal_def char_int_def tolower_def Let_def)

lemma malformed_digits:
  "hexToBin_digits malformed_line (Suc 0) 16 0 m =
     (0, m[0 := 0x5D, 1 := 0x48, 2 := 0x40, 3 := 0xD6, 4 := 0xF8, 5 := 0x74, 6 := 0x0F])"
  apply (subst hexToBin_digits.simps, simp add: malformed_line_def hexvals Let_def)
  apply (subst hexToBin_digits.simps, simp add: malformed_line_def hexvals Let_def)
  apply (subst hexToBin_digits.simps, simp add: malformed_line_def hexvals Let_def)
  apply (subst hexToBin_digits.simps, simp add: malformed_line_def hexvals Let_def)
  apply (subst hexToBin_digits.simps, simp add: malformed_line_def hexvals Let_def)
  apply (subst hexToBin_digits.simps, simp add: malformed_line_def hexvals Let_def)
  apply (subst hexToBin_digits.simps, simp add: malformed_line_def hexvals Let_def)
  apply (subst hexToBin_digits.simps, simp add: malformed_line_def hexvals Let_def)
  apply (simp add: eval_nat_numeral)
  done

lemma malformed_hexToBin:
  "hexToBin malformed_line m =
     (0, malformed_line, m[0 := 0x5D, 1 := 0x48, 2 := 0x40, 3 := 0xD6, 4 := 0xF8, 5 := 0x74, 6 := 0x0F])"
  by (simp add: hexToBin_def malformed_strlen malformed_strip malformed_skip malformed_digits
      MODES_LONG_MSG_BYTES_def)
     (simp add: malformed_line_def)


lemma malformed_bytes:
  assumes "length m = 14"
  shows "take 7 (snd (snd (hexToBin malformed_line m))) = frame_df11"
    and "length (snd (snd (hexToBin malformed_line m))) = 14"
proof -
  obtain b0 b1 b2 b3 b4 b5 b6 b7 b8 b9 b10 b11 b12 b13
    where m: "m = [b0, b1, b2, b3, b4, b5, b6, b7, b8, b9, b10, b11, b12, b13]"
    using assms by (auto simp: length_Suc_conv eval_nat_numeral)
  show "take 7 (snd (snd (hexToBin malformed_line m))) = frame_df11"
    and "length (snd (snd (hexToBin malformed_line m))) = 14"
    unfolding malformed_hexToBin by (simp_all add: m frame_df11_def)
qed


lemma frame_df11_checksum: "trailing_crc frame_df11 56 = modesChecksum frame_df11 56"
  by code_simp

lemma decode_crc_valid:
  assumes "trailing_crc (take 14 m) (modesMessageLenByType (drop_bit 3 (byte_at (take 14 m) 0))) =
           modesChecksum (take 14 m) (modesMessageLenByType (drop_bit 3 (byte_at (take 14 m) 0)))"
  shows "mm_crcok (decode_crc cfg mm0 m)" "mm_errorbit (decode_crc cfg mm0 m) = - 1"
  using assms by (simp_all add: decode_crc_def Let_def MODES_LONG_MSG_BYTES_def)

text \<open>Decoding any 14-byte buffer whose first seven bytes are the DF11 frame.\<close>

lemma decode_df11_buffer:
  assumes "take 7 m = frame_df11" "length m = 14"
  shows "mm_msgtype (fst (decodeModesMessage cfg now cache mm0 m)) = 11"
    and "mm_crcok (fst (decodeModesMessage cfg now cache mm0 m))"
    and "snd (decodeModesMessage cfg now cache mm0 m) = addRecentlySeenICAOAddr now 0x4840D6 cache"
proof -
  have t14: "take 14 m = m" using assms(2) by simp
  have nth: "m ! 0 = 0x5D" "m ! Suc 0 = 0x48" "m ! 2 = 0x40" "m ! 3 = 0xD6"
    using arg_cong [OF assms(1), of "\<lambda>xs. xs ! 0"] arg_cong [OF assms(1), of "\<lambda>xs. xs ! Suc 0"]
      arg_cong [OF assms(1), of "\<lambda>xs. xs ! 2"] arg_cong [OF assms(1), of "\<lambda>xs. xs ! 3"]
    by (simp_all add: frame_df11_def)
  have ty: "drop_bit 3 (byte_at (take 14 m) 0) = 11"
    by (simp add: t14 byte_at_def nth drop_bit_eq_div)
  have bits: "modesMessageLenByType 11 = 56"
    by (simp add: modesMessageLenByType_def MODES_SHORT_MSG_BITS_def)
  have "trailing_crc m 56 = trailing_crc (take (56 div 8) m) 56"
    by (rule trailing_crc_take [symmetric]) simp
  moreover have "modesChecksum m 56 = modesChecksum (take 7 m) 56"
    by (rule modesChecksum_take [symmetric]) simp
  ultimately have crc: "trailing_crc m 56 = modesChecksum m 56"
    using frame_df11_checksum by (simp add: assms(1))
  have crc': "trailing_crc (take 14 m) (modesMessageLenByType (drop_bit 3 (byte_at (take 14 m) 0))) =
           modesChecksum (take 14 m) (modesMessageLenByType (drop_bit 3 (byte_at (take 14 m) 0)))"
    unfolding ty bits unfolding t14 by (rule crc)
  note ok = decode_crc_valid [OF crc', of cfg mm0]
  have msg: "mm_msg (decode_crc cfg mm0 m) = m"
    using decode_crc_valid_msg [OF crc', of cfg mm0] by (simp add: t14)
  show "mm_msgtype (fst (decodeModesMessage cfg now cache mm0 m)) = 11"
    by (simp add: decodeModesMessage_type ty)
  have ty': "mm_msgtype (decode_crc cfg mm0 m) = 11"
    by (simp add: decode_crc_type ty)
  show "mm_crcok (fst (decodeModesMessage cfg now cache mm0 m))"
    using ok ty' by (simp add: decodeModesMessage_def Let_def split_def decode_address_cases)
  have addr: "icao_addr (decode_fields (decode_crc cfg mm0 m)) = 0x4840D6"
    by (simp add: icao_addr_def decode_fields_def Let_def msg byte_at_def nth)
  show "snd (decodeModesMessage cfg now cache mm0 m) = addRecentlySeenICAOAddr now 0x4840D6 cache"
    using ok ty' addr by (simp add: decodeModesMessage_def Let_def split_def decode_address_cases)
qed

text \<open>
  C1.  The handler of the raw input service never looks at what \<^verbatim>\<open>hexToBin\<close> returns,
  and \<^verbatim>\<open>hexToBin\<close> returns 0 on every path.  The malformed record above is therefore
  decoded: it stops the conversion at its first bad character, after seven bytes, and those
  bytes are a DF11 frame with a valid checksum.  Whatever the 14 bytes of the automatic
  array were before, the message is decoded, its address enters the recency cache and the
  message is displayed.
\<close>

theorem malformed_line_is_decoded:
  "fst (hexToBin malformed_line [b0, b1, b2, b3, b4, b5, b6, b7, b8, b9, b10, b11, b12, b13]) = 0 \<and>
   (\<exists>mm. mm_msgtype mm = 11 \<and> mm_crcok mm \<and>
      decodeHexMessage modesInitConfig now now_ms
        [b0, b1, b2, b3, b4, b5, b6, b7, b8, b9, b10, b11, b12, b13] mm0 modesInit malformed_line =
      (False, malformed_line,
       modesInit\<lparr>st_icao_cache := addRecentlySeenICAOAddr now 0x4840D6 icao_cache_init,
                 sink_log := [Displayed mm]\<rparr>))"
proof -
  let ?stack = "[b0, b1, b2, b3, b4, b5, b6, b7, b8, b9, b10, b11, b12, b13]"
  let ?bytes = "snd (snd (hexToBin malformed_line ?stack))"
  let ?d = "decodeModesMessage modesInitConfig now (st_icao_cache modesInit) mm0 ?bytes"
  have len: "length ?stack = 14" by simp
  note d = decode_df11_buffer [OF malformed_bytes(1) [OF len] malformed_bytes(2) [OF len],
      of modesInitConfig now "st_icao_cache modesInit" mm0]
  have buf: "fst (snd (hexToBin malformed_line ?stack)) = malformed_line"
    by (simp add: malformed_hexToBin)
  have "decodeHexMessage modesInitConfig now now_ms ?stack mm0 modesInit malformed_line =
      (False, malformed_line,
       modesInit\<lparr>st_icao_cache := addRecentlySeenICAOAddr now 0x4840D6 icao_cache_init,
                 sink_log := [Displayed (fst ?d)]\<rparr>)"
    using d(2,3) buf
    by (simp add: decodeHexMessage_def split_def Let_def useModesMessage_def emit_def
        modesInit_def modesInitConfig_def)
  then show ?thesis
    using d(1,2) hexToBin_returns_0 by blast
qed

theorem malformed_line_is_decoded_witness:
  "fst (hexToBin malformed_line [0, 0, 0, 0, 0, 0, 0, 0, 0, 0, 0, 0, 0, 0]) = 0 \<and>
   (\<exists>mm. mm_msgtype mm = 11 \<and> mm_crcok mm \<and>
      decodeHexMessage modesInitConfig 1000 1000000
        [0, 0, 0, 0, 0, 0, 0, 0, 0, 0, 0, 0, 0, 0] mm_zero modesInit malformed_line =
      (False, malformed_line,
       modesInit\<lparr>st_icao_cache := addRecentlySeenICAOAddr 1000 0x4840D6 icao_cache_init,
                 sink_log := [Displayed mm]\<rparr>))"
  by (rule malformed_line_is_decoded)

end
